theory Spec2Isabelle
  imports Main
begin

section \<open>Strings and regular expressions of the host language\<close>

text \<open>
  The program is TypeScript. A string is modelled as a \<^typ>\<open>string\<close>: a list of 8-bit
  characters, that is the code units below 256. A \<open>Buffer\<close> of bytes is a list of the
  same characters. Numbers are modelled as natural numbers: every number the modelled
  code computes is a non-negative integer, and the arithmetic is exact below \<open>2 ^ 53\<close>.
\<close>

type_synonym byte = char
type_synonym buffer = "byte list"

definition LF :: byte where "LF = CHR 0x0A"
definition CR :: char where "CR = CHR 0x0D"

text \<open>White space together with the line terminators, as \<open>\s\<close> and \<open>trim\<close> see them
  (tab, line feed, vertical tab, form feed, carriage return, space, no-break space).\<close>

definition is_space :: "char \<Rightarrow> bool" where
  "is_space c = (of_char c \<in> {9, 10, 11, 12, 13, 32, 160 :: nat})"

text \<open>The line terminators, which \<open>.\<close> does not match.\<close>

definition is_line_terminator :: "char \<Rightarrow> bool" where
  "is_line_terminator c = (of_char c \<in> {10, 13 :: nat})"

text \<open>\<open>String.prototype.trim\<close>.\<close>

definition trim :: "string \<Rightarrow> string" where
  "trim s = rev (dropWhile is_space (rev (dropWhile is_space s)))"

text \<open>\<open>s.split(c)\<close> with a one-character separator: never an empty result.\<close>

fun split_on :: "char \<Rightarrow> string \<Rightarrow> string list" where
  "split_on c [] = [[]]"
| "split_on c (x # xs) =
     (if x = c then [] # split_on c xs
      else (case split_on c xs of [] \<Rightarrow> [[x]] | w # ws \<Rightarrow> (x # w) # ws))"

subsection \<open>A backtracking matcher\<close>

text \<open>
  The regular expressions of the source are kept as data and run by a matcher with the
  semantics of the language: alternatives left to right, greedy quantifiers longest
  first, lazy quantifiers shortest first, capture groups, negative lookahead. The syntax
  holds what the source's expressions use: quantifiers \<open>+\<close>, \<open>+?\<close> and \<open>*\<close> stand on
  a single character class, \<open>?\<close> on any expression.
\<close>

datatype atom = Ch char | WS

datatype cls = Dot | Set "atom list" | NSet "atom list"

fun in_atom :: "atom \<Rightarrow> char \<Rightarrow> bool" where
  "in_atom (Ch d) c = (c = d)"
| "in_atom WS c = is_space c"

fun in_cls :: "cls \<Rightarrow> char \<Rightarrow> bool" where
  "in_cls Dot c = (\<not> is_line_terminator c)"
| "in_cls (Set as) c = list_ex (\<lambda>a. in_atom a c) as"
| "in_cls (NSet as) c = (\<not> list_ex (\<lambda>a. in_atom a c) as)"

datatype re =
    Eps
  | C cls
  | Seq re re
  | Alt re re
  | Opt re
  | Plus cls
  | PlusLazy cls
  | Star cls
  | Grp nat re
  | NegAhead re
  | Bol
  | Eol

text \<open>A matcher state: the position in the input, the input left, and the captures
  (the latest capture of a group first).\<close>

type_synonym caps = "(nat \<times> string) list"
type_synonym mst = "nat \<times> string \<times> caps"

fun star_greedy :: "cls \<Rightarrow> nat \<Rightarrow> string \<Rightarrow> caps \<Rightarrow> (mst \<Rightarrow> mst option) \<Rightarrow> mst option" where
  "star_greedy c p [] cs k = k (p, [], cs)"
| "star_greedy c p (x # xs) cs k =
     (if in_cls c x
      then (case star_greedy c (Suc p) xs cs k of
              Some r \<Rightarrow> Some r
            | None \<Rightarrow> k (p, x # xs, cs))
      else k (p, x # xs, cs))"

fun star_lazy :: "cls \<Rightarrow> nat \<Rightarrow> string \<Rightarrow> caps \<Rightarrow> (mst \<Rightarrow> mst option) \<Rightarrow> mst option" where
  "star_lazy c p [] cs k = k (p, [], cs)"
| "star_lazy c p (x # xs) cs k =
     (case k (p, x # xs, cs) of
        Some r \<Rightarrow> Some r
      | None \<Rightarrow> (if in_cls c x then star_lazy c (Suc p) xs cs k else None))"

fun one_of :: "cls \<Rightarrow> mst \<Rightarrow> (mst \<Rightarrow> mst option) \<Rightarrow> mst option" where
  "one_of c (p, [], cs) k = None"
| "one_of c (p, x # xs, cs) k = (if in_cls c x then k (Suc p, xs, cs) else None)"

fun matcher :: "re \<Rightarrow> mst \<Rightarrow> (mst \<Rightarrow> mst option) \<Rightarrow> mst option" where
  "matcher Eps s k = k s"
| "matcher (C c) s k = one_of c s k"
| "matcher (Seq a b) s k = matcher a s (\<lambda>s'. matcher b s' k)"
| "matcher (Alt a b) s k =
     (case matcher a s k of Some r \<Rightarrow> Some r | None \<Rightarrow> matcher b s k)"
| "matcher (Opt a) s k =
     (case matcher a s (\<lambda>s'. if fst s' = fst s then None else k s') of
        Some r \<Rightarrow> Some r
      | None \<Rightarrow> k s)"
| "matcher (Plus c) s k = one_of c s (\<lambda>(p, xs, cs). star_greedy c p xs cs k)"
| "matcher (PlusLazy c) s k = one_of c s (\<lambda>(p, xs, cs). star_lazy c p xs cs k)"
| "matcher (Star c) s k = (case s of (p, xs, cs) \<Rightarrow> star_greedy c p xs cs k)"
| "matcher (Grp i a) s k =
     (case s of (p, xs, cs) \<Rightarrow>
        matcher a s (\<lambda>(p', xs', cs'). k (p', xs', (i, take (p' - p) xs) # cs')))"
| "matcher (NegAhead a) s k =
     (case matcher a s Some of Some r \<Rightarrow> None | None \<Rightarrow> k s)"
| "matcher Bol s k = (if fst s = 0 then k s else None)"
| "matcher Eol s k = (if fst (snd s) = [] then k s else None)"

text \<open>\<open>RegExp.prototype.exec\<close> without the global flag: the first start position, from
  the left, at which the expression matches. The result is the start and the end of the
  match and the captures.\<close>

fun exec_from :: "re \<Rightarrow> nat \<Rightarrow> string \<Rightarrow> (nat \<times> nat \<times> caps) option" where
  "exec_from r p [] =
     (case matcher r (p, [], []) Some of
        Some (e, _, cs) \<Rightarrow> Some (p, e, cs)
      | None \<Rightarrow> None)"
| "exec_from r p (x # xs) =
     (case matcher r (p, x # xs, []) Some of
        Some (e, _, cs) \<Rightarrow> Some (p, e, cs)
      | None \<Rightarrow> exec_from r (Suc p) xs)"

definition exec :: "re \<Rightarrow> string \<Rightarrow> (nat \<times> nat \<times> caps) option" where
  "exec r s = exec_from r 0 s"

text \<open>\<open>s.replace(r, '')\<close> without the global flag: the first match is cut out.\<close>

definition replace_first :: "re \<Rightarrow> string \<Rightarrow> string" where
  "replace_first r s =
     (case exec r s of None \<Rightarrow> s | Some (b, e, _) \<Rightarrow> take b s @ drop e s)"

text \<open>\<open>s.split(r)\<close>: \<open>q\<close> is the position tried next, \<open>xs\<close> the input from there and
  \<open>cur\<close> the piece read so far. A match that is empty at the start of a piece is passed
  over.\<close>

function split_re :: "re \<Rightarrow> nat \<Rightarrow> string \<Rightarrow> string \<Rightarrow> string list" where
  "split_re r q cur [] = [cur]"
| "split_re r q cur (x # xs) =
     (case matcher r (q, x # xs, []) Some of
        None \<Rightarrow> split_re r (Suc q) (cur @ [x]) xs
      | Some (e, _, _) \<Rightarrow>
          if e \<le> q
          then (if cur = [] then split_re r (Suc q) [x] xs
                else cur # split_re r q [] (x # xs))
          else cur # split_re r e [] (drop (e - q) (x # xs)))"
  by pat_completeness auto
termination
  by (relation "measure (\<lambda>(r, q, cur, xs). 2 * length xs + (if cur = [] then 0 else 1))") auto

definition split_regex :: "re \<Rightarrow> string \<Rightarrow> string list" where
  "split_regex r s =
     (if s = [] then (case matcher r (0, [], []) Some of None \<Rightarrow> [s] | Some _ \<Rightarrow> [])
      else split_re r 0 [] s)"

fun seqs :: "re list \<Rightarrow> re" where
  "seqs [] = Eps"
| "seqs [r] = r"
| "seqs (r # rs) = Seq r (seqs rs)"

definition lit :: "char \<Rightarrow> re" where
  "lit c = C (Set [Ch c])"

section \<open>Parsing a line: \<open>IrcConnection.parseMessage\<close>\<close>

text \<open>
  The expression of \<open>parseMessage\<close>:
  \<^verbatim>\<open>/^(?:(?:(?:@([^ ]+) )?):(?:([^\s!]+)|([^\s!]+)!([^\s@]+)@?([^\s]+)?) )?(\S+)(?: (?!:)(.+?))?(?: :(.*))?$/i\<close>.
  The flag \<open>i\<close> changes nothing: the expression names no letter.
\<close>

definition parse_regex :: re where
  "parse_regex = seqs
     [Bol,
      Opt (seqs
        [Opt (seqs [lit (CHR ''@''), Grp 1 (Plus (NSet [Ch (CHR '' '')])), lit (CHR '' '')]),
         lit (CHR '':''),
         Alt (Grp 2 (Plus (NSet [WS, Ch (CHR ''!'')])))
             (seqs [Grp 3 (Plus (NSet [WS, Ch (CHR ''!'')])),
                    lit (CHR ''!''),
                    Grp 4 (Plus (NSet [WS, Ch (CHR ''@'')])),
                    Opt (lit (CHR ''@'')),
                    Opt (Grp 5 (Plus (NSet [WS])))]),
         lit (CHR '' '')]),
      Grp 6 (Plus (NSet [WS])),
      Opt (seqs [lit (CHR '' ''), NegAhead (lit (CHR '':'')), Grp 7 (PlusLazy Dot)]),
      Opt (seqs [lit (CHR '' ''), lit (CHR '':''), Grp 8 (Star Dot)]),
      Eol]"

text \<open>\<^verbatim>\<open>/^\r+|\r+$/\<close>, \<^verbatim>\<open>/ +/\<close> and \<^verbatim>\<open>/\s+$/\<close>.\<close>

definition cr_regex :: re where
  "cr_regex = Alt (Seq Bol (Plus (Set [Ch CR]))) (Seq (Plus (Set [Ch CR])) Eol)"

definition spaces_regex :: re where
  "spaces_regex = Plus (Set [Ch (CHR '' '')])"

definition trailing_space_regex :: re where
  "trailing_space_regex = Seq (Plus (Set [WS])) Eol"

text \<open>A value that may be \<open>undefined\<close> is an option; \<open>a || b\<close> on such strings takes
  \<open>b\<close> when \<open>a\<close> is \<open>undefined\<close> or empty.\<close>

definition truthy :: "string option \<Rightarrow> bool" where
  "truthy a = (a \<noteq> None \<and> a \<noteq> Some [])"

definition js_or :: "string option \<Rightarrow> string option \<Rightarrow> string option" where
  "js_or a b = (if truthy a then a else b)"

definition or_empty :: "string option \<Rightarrow> string" where
  "or_empty a = (case a of Some s \<Rightarrow> s | None \<Rightarrow> [])"

record tag_value =
  tag :: "string option"
  "value" :: "string option"

record msg_obj =
  tags :: "tag_value list"
  prefix :: "string option"
  nick :: "string option"
  ident :: string
  hostname :: string
  command :: "string option"
  params :: "string list"

text \<open>An element of an array read by index: \<open>undefined\<close> out of range.\<close>

definition at_index :: "'a list \<Rightarrow> nat \<Rightarrow> 'a option" where
  "at_index xs i = (if i < length xs then Some (xs ! i) else None)"

definition make_tag :: "string \<Rightarrow> tag_value" where
  "make_tag t = (let tg = split_on (CHR ''='') t
                 in \<lparr>tag = at_index tg 0, value = at_index tg 1\<rparr>)"

text \<open>The value of \<open>msg_obj\<close> at the end of \<open>parseMessage\<close>, from the result
  \<open>message\<close> of \<open>exec\<close>.\<close>

definition build_msg :: "caps \<Rightarrow> msg_obj" where
  "build_msg cs =
     (let message = map_of cs;
          tgs = (if truthy (message 1)
                 then map make_tag (split_on (CHR '';'') (or_empty (message 1)))
                 else []);
          ps = (if truthy (message 7)
                then split_regex spaces_regex (or_empty (message 7))
                else [])
      in \<lparr>tags = tgs,
          prefix = message 2,
          nick = js_or (message 3) (message 2),
          ident = or_empty (js_or (message 4) (Some [])),
          hostname = or_empty (js_or (message 5) (Some [])),
          command = message 6,
          params = (if truthy (message 8)
                    then ps @ [replace_first trailing_space_regex (or_empty (message 8))]
                    else ps)\<rparr>)"

text \<open>What a call of \<open>parseMessage\<close> comes to: nothing for an empty line, a warning of
  the logger for a line that does not match, and the object built for a line that
  matches.\<close>

datatype parsed = Empty_line | Malformed string | Message msg_obj

definition parse_line :: "string \<Rightarrow> parsed" where
  "parse_line line =
     (if line = [] then Empty_line
      else (let line' = trim line in
            case exec parse_regex (replace_first cr_regex line') of
              None \<Rightarrow> Malformed (replace_first cr_regex line')
            | Some (_, _, cs) \<Rightarrow> Message (build_msg cs)))"

section \<open>The state of a network and of its connection\<close>

text \<open>
  Objects that are shared and mutated are kept in a store: an \<open>IrcServer\<close> object is
  an address into \<open>heap\<close>, so that the servers array, \<open>active_server\<close> and the
  connection's \<open>server\<close> can name the same object.
\<close>

type_synonym ref = nat

text \<open>Modelled from the spec: the class \<open>IrcServer\<close> (irc_server.ts) is not among the
  sources. The spec gives a server a host, a port, a transport-security flag, an
  optional password and an enabled/disabled flag; \<open>enabled()\<close> reads the flag,
  \<open>disabled()\<close> its negation, \<open>enable()\<close> and \<open>disable()\<close> set it.\<close>

record irc_server =
  host :: string
  port :: nat
  ssl :: bool
  sv_password :: "string option"
  sv_enabled :: bool

text \<open>Modelled from the spec: the class \<open>Timer\<close> (utilities/timer) is not among the
  sources. The spec gives a timer handle an interval that can be mutated, \<open>start\<close> and
  \<open>stop\<close>. The callback of a timer is run by the environment, as an event.\<close>

record timer =
  interval :: nat
  running :: bool

record socket =
  sock_host :: string
  sock_port :: nat
  sock_tls :: bool
  listeners :: "string list"
  ended :: bool
  destroyed :: bool

text \<open>\<open>held_data\<close> is declared without a value and is later a \<open>Buffer\<close> or \<open>null\<close>.\<close>

datatype held = Undefined | Null | Buf buffer

text \<open>The fields of \<open>IrcConnection\<close>. \<open>buffer\<close> is the \<open>Transform\<close> stream piped to
  the socket: the chunks pushed on it, in order. \<open>reconnect_delay\<close> is read and
  written by \<open>reconnect\<close> and declared in no source at hand. \<open>c_connected\<close> is
  \<open>_connected\<close>.\<close>

record conn =
  server :: ref
  reconnect_attempts :: nat
  request_disconnect :: bool
  buffer :: "string list"
  piped :: bool
  pong_timer :: "timer option"
  reconnect_timer :: "timer option"
  held_data :: held
  hold_last :: bool
  c_connected :: bool
  reconnect_delay :: nat
  socket :: "socket option"

text \<open>What reaches the collaborators: the events emitted on the bot, the calls of the
  logger, of a callback (an error message or \<open>null\<close>, and a server or none), of a
  hook, of a channel, of the \<open>done\<close> of a timer, and work deferred to the next tick.
  Of a logged message the fixed text is kept.\<close>

datatype arg = AStr string | ANetwork | AServer ref

datatype effect =
    BotEmit string "arg list"
  | LoggerInfo string
  | LoggerWarn string "string list"
  | LoggerError string
  | ConsoleLog string
  | Callback "string option" "ref option"
  | HookPre string
  | HookPost string
  | ChannelJoin string
  | NextTickEnd
  | Done

text \<open>The fields of \<open>IRC\<close>, with \<open>_enable\<close> and \<open>_connected\<close> of its base class
  (\<open>enable\<close>, \<open>n_connected\<close>), the keys of \<open>channel\<close> in insertion order, and the
  values \<open>Math.floor(Math.random() * 26)\<close> still to come (\<open>random\<close>). The field
  \<open>encoding\<close> names the decoder of \<open>toString(this.network.encoding)\<close>; the decoder
  itself is the parameter \<open>decode\<close> of \<open>onData\<close>.\<close>

record irc =
  name :: string
  servers :: "ref list"
  heap :: "irc_server list"
  channel :: "string list"
  connection :: "conn option"
  connection_attempts :: nat
  options_connection_attempts :: nat
  active_server :: "ref option"
  net_nick :: string
  altnick :: string
  quit_message :: string
  encoding :: string
  password :: "string option"
  user :: string
  realname :: string
  modes :: "string list"
  index :: nat
  auto_disabled_timer :: "timer option"
  auto_disable_interval :: nat
  auto_disable_times :: nat
  enable :: bool
  n_connected :: bool
  random :: "nat list"
  log :: "effect list"

datatype error = TypeError

definition emit :: "effect \<Rightarrow> irc \<Rightarrow> irc" where
  "emit e st = st\<lparr>log := log st @ [e]\<rparr>"

text \<open>Modelled from the spec: the base class \<open>Network\<close> (base/network.ts) is not among
  the sources. Its methods \<open>enabled()\<close>, \<open>connected()\<close> and \<open>disconnected()\<close> read the
  flags \<open>_enable\<close> and \<open>_connected\<close>, which the constructor of \<open>IRC\<close> and its listener
  of the connect event set; \<open>enable()\<close> and \<open>disable()\<close> set \<open>_enable\<close>.\<close>

abbreviation net_enabled :: "irc \<Rightarrow> bool" where
  "net_enabled st \<equiv> enable st"

abbreviation net_connected :: "irc \<Rightarrow> bool" where
  "net_connected st \<equiv> n_connected st"

abbreviation net_disconnected :: "irc \<Rightarrow> bool" where
  "net_disconnected st \<equiv> \<not> n_connected st"

abbreviation net_enable :: "irc \<Rightarrow> irc" where
  "net_enable st \<equiv> st\<lparr>enable := True\<rparr>"

abbreviation net_disable :: "irc \<Rightarrow> irc" where
  "net_disable st \<equiv> st\<lparr>enable := False\<rparr>"

text \<open>Modelled from the spec: \<open>connected()\<close>, which \<open>IrcConnection\<close> calls on itself, is
  declared in no source at hand. The base class at hand declares \<open>isConnected()\<close>, which
  returns \<open>_connected\<close>; \<open>connected()\<close> is taken to return it too.\<close>

abbreviation connected :: "conn \<Rightarrow> bool" where
  "connected this \<equiv> c_connected this"

section \<open>Framing: \<open>IrcConnection.onData\<close>\<close>

definition max_buffer_size :: nat where
  "max_buffer_size = 1024"

text \<open>\<open>data.slice(a, b)\<close> for \<open>a \<le> b \<le> data.length\<close>.\<close>

definition slice :: "buffer \<Rightarrow> nat \<Rightarrow> nat \<Rightarrow> buffer" where
  "slice dat a b = take (b - a) (drop a dat)"

text \<open>The first loop of \<open>onData\<close>: from \<open>data_pos\<close>, with \<open>line_start\<close> and \<open>lines\<close>
  as they stand; the result is \<open>line_start\<close> and \<open>lines\<close> when the loop ends, where
  \<open>data_pos\<close> is \<open>data.length\<close>.\<close>

function split_lines :: "buffer \<Rightarrow> nat \<Rightarrow> nat \<Rightarrow> buffer list \<Rightarrow> nat \<times> buffer list" where
  "split_lines dat data_pos line_start lines =
     (if data_pos < length dat
      then (if dat ! data_pos = LF
            then split_lines dat (Suc data_pos) (Suc data_pos)
                   (lines @ [slice dat line_start data_pos])
            else split_lines dat (Suc data_pos) line_start lines)
      else (line_start, lines))"
  by pat_completeness auto
termination
  by (relation "measure (\<lambda>(dat, data_pos, line_start, lines). length dat - data_pos)") auto

declare split_lines.simps [simp del]

definition held_length :: "held \<Rightarrow> nat" where
  "held_length h = (case h of Buf b \<Rightarrow> length b | _ \<Rightarrow> 0)"

text \<open>What \<open>onData\<close> decides before it parses: the buffer is too large (\<open>Overflow\<close>),
  the chunk holds no complete line and is held (\<open>Wait\<close>), or the lines to parse
  (\<open>Lines\<close>); each with the fields of the connection as they are then.\<close>

datatype framing = Overflow conn | Wait conn | Lines conn "buffer list"

definition hold_rest :: "buffer \<Rightarrow> nat \<Rightarrow> conn \<Rightarrow> buffer list \<Rightarrow> framing" where
  "hold_rest dat line_start this lines =
     (if line_start < length dat
      then (if length dat - line_start > max_buffer_size
            then Overflow this
            else Lines (this\<lparr>hold_last := True, held_data := Buf (drop line_start dat)\<rparr>) lines)
      else Lines this lines)"

definition frame :: "buffer \<Rightarrow> conn \<Rightarrow> error + framing" where
  "frame dat this =
     (case split_lines dat 0 0 [] of
        (line_start, []) \<Rightarrow>
          if held_length (held_data this) + length dat > max_buffer_size
          then Inr (Overflow this)
          else Inr (Wait (this\<lparr>held_data :=
                  (case held_data this of Buf h \<Rightarrow> Buf (h @ dat) | _ \<Rightarrow> Buf dat)\<rparr>))
      | (line_start, l # ls) \<Rightarrow>
          if hold_last this \<and> held_data this \<noteq> Null
          then (case held_data this of
                  Buf h \<Rightarrow> Inr (hold_rest dat line_start
                                  (this\<lparr>hold_last := False, held_data := Null\<rparr>) ((h @ l) # ls))
                | _ \<Rightarrow> Inl TypeError)
          else Inr (hold_rest dat line_start this (l # ls)))"

definition parseMessage :: "string \<Rightarrow> irc \<Rightarrow> irc" where
  "parseMessage line st =
     (case parse_line line of
        Malformed l \<Rightarrow> emit (LoggerWarn ''Malformed IRC line: %s'' [l]) st
      | _ \<Rightarrow> st)"

text \<open>A method of the connection runs on the connection object of the network, which
  creates one at most (\<open>IRC.connect\<close>): it is \<open>this\<close>. Without the object there is no
  call, and the state is returned as it is.\<close>

definition onData :: "(buffer \<Rightarrow> string) \<Rightarrow> buffer \<Rightarrow> irc \<Rightarrow> error + irc" where
  "onData decode dat st =
     (case connection st of
        None \<Rightarrow> Inr st
      | Some this \<Rightarrow>
          (case frame dat this of
             Inl e \<Rightarrow> Inl e
           | Inr (Wait c) \<Rightarrow> Inr (st\<lparr>connection := Some c\<rparr>)
           | Inr (Overflow c) \<Rightarrow>
               (case socket c of
                  None \<Rightarrow> Inl TypeError
                | Some s \<Rightarrow>
                    Inr (emit (BotEmit ''error'' [AStr ''Message buffer too large''])
                          (st\<lparr>connection := Some (c\<lparr>socket := Some (s\<lparr>destroyed := True\<rparr>)\<rparr>)\<rparr>)))
           | Inr (Lines c ls) \<Rightarrow>
               Inr (foldl (\<lambda>s l. parseMessage (decode l) s)
                      (st\<lparr>connection := Some c\<rparr>) ls)))"

text \<open>The lines on which \<open>onData\<close> calls \<open>parseMessage\<close>, in order.\<close>

definition parsed_lines :: "(buffer \<Rightarrow> string) \<Rightarrow> buffer \<Rightarrow> irc \<Rightarrow> string list" where
  "parsed_lines decode dat st =
     (case connection st of
        None \<Rightarrow> []
      | Some this \<Rightarrow>
          (case frame dat this of
             Inr (Lines c ls) \<Rightarrow> map decode ls
           | _ \<Rightarrow> []))"

text \<open>The chunks of a stream, fed one at a time: the state at the end and the lines
  handed to \<open>parseMessage\<close> on the way.\<close>

fun feed :: "(buffer \<Rightarrow> string) \<Rightarrow> buffer list \<Rightarrow> irc \<Rightarrow> error + (irc \<times> string list)" where
  "feed decode [] st = Inr (st, [])"
| "feed decode (dat # chunks) st =
     (case onData decode dat st of
        Inl e \<Rightarrow> Inl e
      | Inr st' \<Rightarrow>
          (case feed decode chunks st' of
             Inl e \<Rightarrow> Inl e
           | Inr (st'', ls) \<Rightarrow> Inr (st'', parsed_lines decode dat st @ ls)))"

text \<open>The bytes of a chunk after its last line feed: the line left unterminated.\<close>

definition unterminated :: "buffer \<Rightarrow> buffer" where
  "unterminated dat = rev (takeWhile (\<lambda>b. b \<noteq> LF) (rev dat))"

section \<open>Objects as their constructors leave them\<close>

text \<open>\<open>new IrcConnection(network, server)\<close>: the initialisers of the fields. The base
  class at hand declares \<open>reconnectDelay = 5000\<close>; \<open>reconnect_delay\<close>, which no source at
  hand declares, is taken to start there.\<close>

definition new_IrcConnection :: "ref \<Rightarrow> conn" where
  "new_IrcConnection sv =
     \<lparr>server = sv, reconnect_attempts = 0, request_disconnect = False, buffer = [],
      piped = False, pong_timer = None, reconnect_timer = None, held_data = Undefined,
      hold_last = False, c_connected = False, reconnect_delay = 5000, socket = None\<rparr>"

text \<open>\<open>new IRC(bot, options)\<close> with the options of \<open>defaults()\<close> and a name: the
  initialisers of the fields and the defaults merged in; no server and no channel yet.\<close>

definition new_IRC :: "string \<Rightarrow> irc" where
  "new_IRC nm =
     \<lparr>name = nm, servers = [], heap = [], channel = [], connection = None,
      connection_attempts = 10, options_connection_attempts = 10,
      active_server = None, net_nick = ''kwirk'', altnick = ''kw?rk'',
      quit_message = ''KwirK, a sophisticated utility bot'', encoding = ''utf8'',
      password = None, user = ''KwirK'', realname = ''KwirK IRC Bot'', modes = [''i''],
      index = 0, auto_disabled_timer = None, auto_disable_interval = 180000,
      auto_disable_times = 0, enable = False, n_connected = False, random = [],
      log = []\<rparr>"

text \<open>The decoder of \<open>latin1\<close>: every byte is a code unit. On bytes below 128 it is the
  decoder of \<open>utf8\<close>, the default, as well.\<close>

definition latin1 :: "buffer \<Rightarrow> string" where
  "latin1 b = b"

section \<open>Servers of the pool\<close>

definition sv_at :: "irc \<Rightarrow> ref \<Rightarrow> irc_server option" where
  "sv_at st r = at_index (heap st) r"

text \<open>Modelled from the spec: \<open>enabled()\<close>, \<open>disabled()\<close>, \<open>enable()\<close> and
  \<open>disable()\<close> of the class \<open>IrcServer\<close>, which is not among the sources, read and set
  the enabled/disabled flag that the spec gives a server. A reference is made by
  \<open>new IrcServer\<close> and names an object of the store.\<close>

definition enabled :: "irc \<Rightarrow> ref \<Rightarrow> bool" where
  "enabled st r = (case sv_at st r of Some s \<Rightarrow> sv_enabled s | None \<Rightarrow> False)"

definition disabled :: "irc \<Rightarrow> ref \<Rightarrow> bool" where
  "disabled st r = (case sv_at st r of Some s \<Rightarrow> \<not> sv_enabled s | None \<Rightarrow> False)"

definition set_enabled :: "bool \<Rightarrow> ref \<Rightarrow> irc \<Rightarrow> irc" where
  "set_enabled b r st =
     (case sv_at st r of
        Some s \<Rightarrow> st\<lparr>heap := (heap st)[r := s\<lparr>sv_enabled := b\<rparr>]\<rparr>
      | None \<Rightarrow> st)"

text \<open>\<open>IRC.serverExists\<close>, for a host or for a server object.\<close>

datatype target = Host string | Server ref

definition serverExists :: "target \<Rightarrow> irc \<Rightarrow> bool" where
  "serverExists t st =
     (find (\<lambda>r. case t of
                  Server x \<Rightarrow> x = r
                | Host h \<Rightarrow> (case sv_at st r of Some s \<Rightarrow> h = host s | None \<Rightarrow> False))
        (servers st) \<noteq> None)"

text \<open>\<open>IRC.addServer(serve, callback)\<close>: \<open>new IrcServer\<close> puts an object in the store;
  \<open>callback\<close> tells whether a callback is given.\<close>

definition addServer :: "irc_server \<Rightarrow> bool \<Rightarrow> irc \<Rightarrow> irc" where
  "addServer serve callback st =
     (let server = length (heap st);
          st1 = st\<lparr>heap := heap st @ [serve]\<rparr>
      in if serverExists (Host (host serve)) st1
         then (let st2 = emit (BotEmit (name st1 @ '' server exists'') [ANetwork, AServer server]) st1
               in if callback
                  then emit (Callback (Some ''network server hosts must be unique'') (Some server)) st2
                  else st2)
         else (let st2 = st1\<lparr>servers := servers st1 @ [server]\<rparr>
               in if callback then emit (Callback None (Some server)) st2 else st2))"

text \<open>\<open>IRC.findEnabled\<close>.\<close>

definition findEnabled :: "irc \<Rightarrow> ref option" where
  "findEnabled st = find (enabled st) (servers st)"

text \<open>\<open>a * b || a\<close> on numbers.\<close>

definition times_or :: "nat \<Rightarrow> nat \<Rightarrow> nat" where
  "times_or a b = (if a * b = 0 then a else a * b)"

text \<open>\<open>IRC.next_server(index)\<close>: the server returned and the state. An index that is
  not a whole number is treated as one out of range is.\<close>

definition next_server :: "int option \<Rightarrow> irc \<Rightarrow> ref option \<times> irc" where
  "next_server idx st =
     (let use_index = (case idx of
                         Some i \<Rightarrow> 0 \<le> i \<and> i < int (length (servers st))
                       | None \<Rightarrow> False);
          server = (if use_index then at_index (servers st) (nat (case idx of Some i \<Rightarrow> i | None \<Rightarrow> 0))
                    else at_index (servers st) (index st));
          st1 = (if use_index then st
                 else st\<lparr>index := (if length (servers st) = 0 then 0
                                     else (index st + 1) mod length (servers st))\<rparr>)
      in case server of
           None \<Rightarrow> (None, st1)
         | Some r \<Rightarrow>
             if disabled st1 r
             then (case findEnabled st1 of
                     Some r' \<Rightarrow> (Some r', st1)
                   | None \<Rightarrow>
                       (let n = auto_disable_times st1 + 1;
                            i = times_or (auto_disable_interval st1) n
                        in (None,
                            emit (LoggerWarn ''no servers enabled, starting auto disabled timer'' [])
                              ((net_disable st1)\<lparr>auto_disable_times := n,
                                                  auto_disable_interval := i\<rparr>)
                            \<lparr>auto_disabled_timer := Some \<lparr>interval = i, running = True\<rparr>\<rparr>)))
             else (Some r, st1))"

section \<open>The connection: sending, closing, opening\<close>

text \<open>Modelled from the spec: \<open>stop()\<close> of the class \<open>Timer\<close>, which is not among the
  sources, as in \<open>if (timer) timer.stop()\<close>: the timer, if there is one, runs no more.\<close>

definition stop :: "timer option \<Rightarrow> timer option" where
  "stop t = map_option (\<lambda>x. x\<lparr>running := False\<rparr>) t"

text \<open>\<open>IrcConnection.send\<close>.\<close>

definition send :: "string \<Rightarrow> conn \<Rightarrow> conn" where
  "send dat this =
     (if connected this \<and> socket this \<noteq> None
      then this\<lparr>buffer := buffer this @ [dat @ [CR, LF]]\<rparr>
      else this)"

text \<open>\<open>IrcConnection.disposeSocket\<close>: the socket is ended, loses its listeners and is
  forgotten.\<close>

definition disposeSocket :: "conn \<Rightarrow> conn" where
  "disposeSocket this = (case socket this of None \<Rightarrow> this | Some s \<Rightarrow> this\<lparr>socket := None\<rparr>)"

text \<open>\<open>IrcConnection.disconnect(message)\<close>; without a message the quit message of the
  network is sent.\<close>

definition c_disconnect :: "string option \<Rightarrow> irc \<Rightarrow> irc" where
  "c_disconnect message st =
     (case connection st of
        None \<Rightarrow> st
      | Some this \<Rightarrow>
          if \<not> connected this \<and> socket this = None then st
          else emit NextTickEnd
                 (st\<lparr>connection := Some
                    (send (''QUIT : '' @ (case message of None \<Rightarrow> quit_message st | Some m \<Rightarrow> m))
                       (this\<lparr>pong_timer := stop (pong_timer this),
                             request_disconnect := True\<rparr>))\<rparr>))"

text \<open>\<open>IrcConnection.dispose(message)\<close>.\<close>

definition dispose :: "string option \<Rightarrow> irc \<Rightarrow> irc" where
  "dispose message st =
     (case connection st of
        None \<Rightarrow> st
      | Some this \<Rightarrow>
          (let st1 = (if connected this then c_disconnect message st else st)
           in case connection st1 of
                None \<Rightarrow> st1
              | Some this1 \<Rightarrow>
                  st1\<lparr>connection := Some
                    (disposeSocket (this1\<lparr>reconnect_timer := stop (reconnect_timer this1)\<rparr>))\<rparr>))"

text \<open>\<open>IrcConnection.connect\<close>: the socket made listens to its connect event and to
  \<open>error\<close>. The server of a connection names an object of the store.\<close>

definition c_connect :: "irc \<Rightarrow> irc" where
  "c_connect st =
     (case connection st of
        None \<Rightarrow> st
      | Some this \<Rightarrow>
          if connected this
          then emit (BotEmit ''already connected'' [ANetwork, AServer (server this)]) st
          else (case sv_at st (server this) of
                  None \<Rightarrow> st
                | Some sv \<Rightarrow>
                    (emit (HookPre ''connect'') st)
                      \<lparr>connection := Some (this\<lparr>socket := Some
                         \<lparr>sock_host = host sv, sock_port = port sv, sock_tls = ssl sv,
                          listeners = [if ssl sv then ''secureConnect'' else ''connect'', ''error''],
                          ended = False, destroyed = False\<rparr>\<rparr>)\<rparr>))"

section \<open>The network: connecting, jumping, removing a server\<close>

text \<open>\<open>IRC.connect\<close>.\<close>

definition connect :: "irc \<Rightarrow> irc" where
  "connect st =
     (if \<not> net_enabled st \<or> net_connected st
      then (if auto_disabled_timer st \<noteq> None
            then emit (LoggerInfo ''network has been autodisabled'') st else st)
      else (let st1 = (if connection st \<noteq> None then dispose None st else st);
                (sv, st2) = next_server None st1;
                st3 = st2\<lparr>active_server := sv\<rparr>
            in case sv of
                 None \<Rightarrow> emit (LoggerWarn ''unable to retrieve an active server'' []) st3
               | Some r \<Rightarrow>
                   c_connect (if connection st3 = None
                              then st3\<lparr>connection := Some (new_IrcConnection r)\<rparr>
                              else st3)))"

text \<open>\<open>IRC.disconnect(message, callback)\<close>.\<close>

definition disconnect :: "string option \<Rightarrow> bool \<Rightarrow> irc \<Rightarrow> irc" where
  "disconnect message callback st =
     (if net_disconnected st
      then (if callback then emit (Callback None None) st else st)
      else if connection st = None then st\<lparr>n_connected := False\<rparr>
      else (let st1 = c_disconnect message st
            in if callback then emit (Callback None None) st1 else st1))"



text \<open>The loop of \<open>disableCheck\<close> that enables every server.\<close>

definition enable_all :: "irc \<Rightarrow> irc" where
  "enable_all st = foldl (\<lambda>s r. set_enabled True r s) st (servers st)"

text \<open>\<open>IRC.disableCheck(done)\<close>, the callback of the auto-disable timer.\<close>

definition disableCheck :: "irc \<Rightarrow> irc" where
  "disableCheck st =
     (let st1 = emit (LoggerInfo ''auto disabled timer invoked network server enabling'') st;
          st2 = net_enable st1;
          st3 = enable_all st2;
          st4 = connect st3;
          st5 = emit Done st4
      in st5\<lparr>auto_disabled_timer := None\<rparr>)"

text \<open>\<open>IRC.onRegistered\<close>.\<close>

definition onRegistered :: "irc \<Rightarrow> irc" where
  "onRegistered st =
     foldl (\<lambda>s nm. emit (ChannelJoin nm) s)
       (st\<lparr>auto_disable_times := 0, auto_disable_interval := 180000,
            connection_attempts := options_connection_attempts st\<rparr>)
       (channel st)"

text \<open>Modelled from the spec: the bot (bot.ts) is not among the sources; the spec makes
  it an event sink. \<open>bot.emit(event, network, server)\<close> is taken to run the listeners at
  once; the listeners are the two that the constructor of \<open>IRC\<close> registers, for the
  events \<open>registered::<name>\<close> and \<open>connect::<name>\<close>.\<close>

definition bot_emit :: "string \<Rightarrow> ref \<Rightarrow> irc \<Rightarrow> irc" where
  "bot_emit event sv st =
     (let st1 = emit (BotEmit event [ANetwork, AServer sv]) st;
          st2 = (if event = ''registered::'' @ name st then onRegistered st1 else st1)
      in if event = ''connect::'' @ name st then st2\<lparr>n_connected := True\<rparr> else st2)"

section \<open>The handshake: \<open>IrcConnection.connectionSetup\<close>\<close>

text \<open>\<open>String.fromCharCode(97 + Math.floor(Math.random() * 26))\<close>, from the random
  values to come.\<close>

definition next_letter :: "nat list \<Rightarrow> char \<times> nat list" where
  "next_letter rs = (case rs of [] \<Rightarrow> (CHR ''a'', []) | r # rs' \<Rightarrow> (char_of (97 + r mod 26), rs'))"

text \<open>The loop of \<open>generate_nick\<close>: every \<open>?\<close> becomes a random letter, the first one
  first.\<close>

fun replace_q :: "string \<Rightarrow> nat list \<Rightarrow> string \<times> nat list" where
  "replace_q [] rs = ([], rs)"
| "replace_q (c # cs) rs =
     (if c = CHR ''?''
      then (case next_letter rs of (l, rs') \<Rightarrow>
              (case replace_q cs rs' of (cs', rs'') \<Rightarrow> (l # cs', rs'')))
      else (case replace_q cs rs of (cs', rs') \<Rightarrow> (c # cs', rs')))"

text \<open>The characters that \<^verbatim>\<open>/[^0-9a-zA-Z\-_.\/]/g\<close> leaves in place.\<close>

definition nick_char :: "char \<Rightarrow> bool" where
  "nick_char c =
     (let n = (of_char c :: nat)
      in (48 \<le> n \<and> n \<le> 57) \<or> (97 \<le> n \<and> n \<le> 122) \<or> (65 \<le> n \<and> n \<le> 90)
         \<or> c = CHR ''-'' \<or> c = CHR ''_'' \<or> c = CHR ''.'' \<or> c = CHR ''/'')"

definition newnick_of :: "string \<Rightarrow> nat list \<Rightarrow> string" where
  "newnick_of nk rs = filter nick_char (fst (replace_q nk rs))"

text \<open>\<open>IRC.generate_nick(nick, force)\<close>, with \<open>nk\<close> for the parameter \<open>nick\<close>: the
  nick returned and the state.\<close>

function generate_nick :: "string \<Rightarrow> bool \<Rightarrow> irc \<Rightarrow> string \<times> irc" where
  "generate_nick nk force st =
     (let newnick = newnick_of nk (random st);
          st1 = st\<lparr>random := snd (replace_q nk (random st))\<rparr>
      in if force \<and> nk = newnick
         then (if altnick st \<noteq> [] \<and> nk \<noteq> altnick st
               then generate_nick (altnick st) True st1
               else if newnick \<noteq> [] \<and> last newnick = CHR ''_''
               then generate_nick (newnick @ ''?'') True st1
               else (nk @ ''_'', st1\<lparr>net_nick := nk @ ''_''\<rparr>))
         else (newnick, st1\<lparr>net_nick := newnick\<rparr>))"
  by pat_completeness auto
termination
proof (relation "measure (\<lambda>(nk, force, st).
         if CHR ''?'' \<in> set nk then 0 else if nk = altnick st then 1 else 2)")
  show "wf (measure (\<lambda>(nk, force, st).
         if CHR ''?'' \<in> set nk then 0 else if nk = altnick st then (1::nat) else 2))"
    by simp
next
  fix nk :: string and force :: bool and st :: irc and x xa
  assume x: "x = newnick_of nk (random st)"
    and xa: "xa = st\<lparr>random := snd (replace_q nk (random st))\<rparr>"
    and f: "force \<and> nk = x" and a: "altnick st \<noteq> [] \<and> nk \<noteq> altnick st"
  have "CHR ''?'' \<notin> set (newnick_of nk (random st))"
    by (simp add: newnick_of_def nick_char_def)
  with f x have "CHR ''?'' \<notin> set nk"
    by simp
  with a xa show "((altnick st, True, xa), nk, force, st) \<in> measure (\<lambda>(nk, force, st).
         if CHR ''?'' \<in> set nk then 0 else if nk = altnick st then (1::nat) else 2)"
    by simp
next
  fix nk :: string and force :: bool and st :: irc and x xa
  assume x: "x = newnick_of nk (random st)"
    and f: "force \<and> nk = x"
  have "CHR ''?'' \<notin> set (newnick_of nk (random st))"
    by (simp add: newnick_of_def nick_char_def)
  with f x have "CHR ''?'' \<notin> set nk"
    by simp
  then show "((x @ ''?'', True, xa), nk, force, st) \<in> measure (\<lambda>(nk, force, st).
         if CHR ''?'' \<in> set nk then 0 else if nk = altnick st then (1::nat) else 2)"
    by simp
qed

declare generate_nick.simps [simp del]

text \<open>\<open>send_cap_ls\<close>, \<open>send_cap_end\<close> and \<open>send_login\<close>, on the connection \<open>this\<close>.\<close>

definition send_cap_ls :: "conn \<Rightarrow> conn" where
  "send_cap_ls this = send ''CAP LS '' this"

definition send_cap_end :: "conn \<Rightarrow> conn" where
  "send_cap_end this = send ''CAP END'' this"

definition send_login :: "conn \<Rightarrow> irc \<Rightarrow> conn \<times> irc" where
  "send_login this st =
     (let pw = js_or (case sv_at st (server this) of Some s \<Rightarrow> sv_password s | None \<Rightarrow> None)
                 (password st);
          this1 = (if truthy pw then send (''PASS '' @ or_empty pw) this else this);
          (nk, st1) = generate_nick (net_nick st) False st;
          this2 = send (''NICK '' @ nk) this1;
          this3 = send (''USER '' @ user st1 @ '' ''
                          @ (if ''i'' \<in> set (modes st1) then ''8'' else ''0'')
                          @ '' * :'' @ realname st1) this2
      in (this3, st1))"

text \<open>\<open>IrcConnection.connectionSetup\<close>, the listener of the connect event of the
  socket.\<close>

definition connectionSetup :: "irc \<Rightarrow> error + irc" where
  "connectionSetup st =
     (case connection st of
        None \<Rightarrow> Inr st
      | Some this \<Rightarrow>
          (case socket this of
             None \<Rightarrow> Inl TypeError
           | Some s \<Rightarrow>
               (let st1 = bot_emit (''connect::'' @ name st) (server this) st;
                    this1 = send_cap_end (send_cap_ls (this\<lparr>piped := True, c_connected := True\<rparr>));
                    (this2, st2) = send_login this1 st1;
                    this3 = (if pong_timer this2 = None
                             then this2\<lparr>pong_timer := Some \<lparr>interval = 120000, running = True\<rparr>\<rparr>
                             else this2);
                    this4 = this3\<lparr>socket := Some
                              (s\<lparr>listeners := listeners s @ [''data'', ''end'', ''close'']\<rparr>)\<rparr>;
                    st3 = emit (HookPost ''connect'') (st2\<lparr>connection := Some this4\<rparr>)
                in Inr (bot_emit (''registered::'' @ name st) (server this) st3))))"

section \<open>Failure: \<open>reconnect\<close>, \<open>onError\<close>, \<open>onClose\<close>\<close>

text \<open>\<open>IrcConnection.reconnect\<close>.\<close>

definition reconnect :: "irc \<Rightarrow> irc" where
  "reconnect st =
     (case connection st of
        None \<Rightarrow> st
      | Some this \<Rightarrow>
          (let d = times_or (reconnect_delay this) (reconnect_attempts this);
               t = (case reconnect_timer this of
                      Some t \<Rightarrow> t\<lparr>interval := d\<rparr>
                    | None \<Rightarrow> \<lparr>interval = d, running = False\<rparr>)
           in (emit (LoggerInfo ''setting timer to delay reconnection'') st)
                \<lparr>connection := Some (this\<lparr>reconnect_delay := d,
                                           reconnect_timer := Some (t\<lparr>running := True\<rparr>)\<rparr>)\<rparr>))"

datatype errcode = EPIPE | ENETUNREACH | ETIMEDOUT | Other string

text \<open>\<open>IrcConnection.onError(e)\<close>, by \<open>e.code\<close>.\<close>

definition onError :: "errcode \<Rightarrow> irc \<Rightarrow> irc" where
  "onError code st0 =
     (let st = emit (ConsoleLog ''onError'') st0
      in case connection st of
           None \<Rightarrow> st
         | Some this \<Rightarrow>
             (case code of
                EPIPE \<Rightarrow>
                  (let st1 = st\<lparr>connection := Some (this\<lparr>pong_timer := stop (pong_timer this)\<rparr>)\<rparr>
                   in if \<not> request_disconnect this then reconnect st1 else st1)
              | ENETUNREACH \<Rightarrow> set_enabled False (server this) st
              | ETIMEDOUT \<Rightarrow>
                  if reconnect_attempts this < connection_attempts st
                  then set_enabled False (server this) st
                  else reconnect
                         (st\<lparr>connection := Some
                            (this\<lparr>reconnect_attempts := reconnect_attempts this + 1\<rparr>)\<rparr>)
              | Other c \<Rightarrow> emit (LoggerError ''an unswitched error occurred'') st))"

text \<open>\<open>IrcConnection.onClose\<close>.\<close>

definition onClose :: "irc \<Rightarrow> error + irc" where
  "onClose st =
     (case connection st of
        None \<Rightarrow> Inr st
      | Some this \<Rightarrow>
          (case socket this of
             None \<Rightarrow> Inl TypeError
           | Some s \<Rightarrow>
               (let st1 = st\<lparr>connection := Some
                            (this\<lparr>socket := Some (s\<lparr>ended := True\<rparr>), c_connected := False,
                                  pong_timer := stop (pong_timer this)\<rparr>)\<rparr>
                in Inr (if \<not> request_disconnect this then reconnect st1 else st1))))"

text \<open>A round of failure: a connect attempt times out, \<open>onError\<close> runs, and the
  reconnect timer, once fired, runs its callback \<open>IrcConnection.connect\<close>.\<close>

definition timeout_round :: "irc \<Rightarrow> irc" where
  "timeout_round st = c_connect (onError ETIMEDOUT st)"

section \<open>Observations and example networks\<close>

text \<open>The chunks pushed on the buffer of the connection, in order.\<close>

definition sent :: "irc \<Rightarrow> string list" where
  "sent st = (case connection st of Some this \<Rightarrow> buffer this | None \<Rightarrow> [])"

text \<open>The servers that successive calls of \<open>next_server()\<close> return.\<close>

fun selections :: "nat \<Rightarrow> irc \<Rightarrow> ref option list" where
  "selections 0 st = []"
| "selections (Suc n) st = (case next_server None st of (sv, st') \<Rightarrow> sv # selections n st')"

text \<open>Every element of the servers array names an object of the store.\<close>

definition refs_ok :: "irc \<Rightarrow> bool" where
  "refs_ok st = list_all (\<lambda>r. r < length (heap st)) (servers st)"

text \<open>The hosts of the servers array, in order.\<close>

definition hosts :: "irc \<Rightarrow> string option list" where
  "hosts st = map (\<lambda>r. map_option host (sv_at st r)) (servers st)"

text \<open>A sequence of calls of \<open>addServer\<close>, each with or without a callback.\<close>

fun add_all :: "(irc_server \<times> bool) list \<Rightarrow> irc \<Rightarrow> irc" where
  "add_all [] st = st"
| "add_all ((serve, callback) # calls) st = add_all calls (addServer serve callback st)"

definition example_server :: irc_server where
  "example_server =
     \<lparr>host = ''irc.example.org'', port = 6667, ssl = False, sv_password = None,
      sv_enabled = True\<rparr>"

definition server_A :: irc_server where
  "server_A =
     \<lparr>host = ''a.example.org'', port = 6667, ssl = False, sv_password = None,
      sv_enabled = False\<rparr>"

definition server_B :: irc_server where
  "server_B =
     \<lparr>host = ''b.example.org'', port = 6667, ssl = False, sv_password = None,
      sv_enabled = True\<rparr>"

definition server_C :: irc_server where
  "server_C =
     \<lparr>host = ''c.example.org'', port = 6667, ssl = False, sv_password = None,
      sv_enabled = True\<rparr>"

text \<open>An enabled network with one server; its session once \<open>connect\<close> has opened a
  socket and \<open>connectionSetup\<close> has run: the handshake is sent and the framer holds
  nothing yet.\<close>

definition net1 :: irc where
  "net1 = addServer example_server False ((new_IRC ''net'')\<lparr>enable := True\<rparr>)"

definition open_socket :: socket where
  "open_socket =
     \<lparr>sock_host = ''irc.example.org'', sock_port = 6667, sock_tls = False,
      listeners = [''connect'', ''error'', ''data'', ''end'', ''close''],
      ended = False, destroyed = False\<rparr>"

definition session_conn :: conn where
  "session_conn =
     \<lparr>server = 0, reconnect_attempts = 0, request_disconnect = False,
      buffer = [''CAP LS '' @ [CR, LF], ''CAP END'' @ [CR, LF], ''NICK kwirk'' @ [CR, LF],
                ''USER KwirK 8 * :KwirK IRC Bot'' @ [CR, LF]],
      piped = True, pong_timer = Some \<lparr>interval = 120000, running = True\<rparr>,
      reconnect_timer = None, held_data = Undefined, hold_last = False, c_connected = True,
      reconnect_delay = 5000, socket = Some open_socket\<rparr>"

definition session :: irc where
  "session = (new_IRC ''net'')
     \<lparr>servers := [0], heap := [example_server], connection := Some session_conn,
      active_server := Some 0, enable := True, n_connected := True,
      log := [HookPre ''connect'', BotEmit ''connect::net'' [ANetwork, AServer 0],
              HookPost ''connect'', BotEmit ''registered::net'' [ANetwork, AServer 0]]\<rparr>"

text \<open>The session once the chunk of a line feed and 1000 spaces has arrived: the
  spaces are held as the beginning of a line, and \<open>hold_last\<close> is set.\<close>

definition held_conn :: conn where
  "held_conn = session_conn\<lparr>hold_last := True, held_data := Buf (replicate 1000 (CHR '' ''))\<rparr>"

definition session_held :: irc where
  "session_held = session\<lparr>connection := Some held_conn\<rparr>"

text \<open>An enabled network with one server and the password \<open>pw\<close>.\<close>

definition net_pw :: irc where
  "net_pw = addServer example_server False
     ((new_IRC ''net'')\<lparr>enable := True, password := Some ''pw''\<rparr>)"

text \<open>An enabled network with one server and the option \<open>connection_attempts\<close> at 0.\<close>

definition net_noretry :: irc where
  "net_noretry = addServer example_server False
     ((new_IRC ''net'')\<lparr>enable := True, connection_attempts := 0,
                          options_connection_attempts := 0\<rparr>)"

text \<open>An enabled network whose one server is disabled.\<close>

definition pool1 :: irc where
  "pool1 = addServer server_A False ((new_IRC ''net'')\<lparr>enable := True\<rparr>)"

text \<open>The pool A (disabled), B, C: the servers are the references 0, 1 and 2.\<close>

definition pool3 :: irc where
  "pool3 = addServer server_C False (addServer server_B False (addServer server_A False
             ((new_IRC ''net'')\<lparr>enable := True\<rparr>)))"

section \<open>Properties of the parser\<close>

text \<open>The captures of the line with a full user mask: the second one is not set.\<close>

lemma exec_full_mask:
  "exec parse_regex (replace_first cr_regex
      (trim ''@tag=val :nick!ident@host COMMAND p1 p2 :trailing with spaces'')) =
     Some (0, 61,
       [(8, ''trailing with spaces''), (7, ''p1 p2''), (6, ''COMMAND''),
        (5, ''host''), (4, ''ident''), (3, ''nick''), (1, ''tag=val'')])"
  by code_simp

lemma build_msg_full_mask:
  "build_msg [(8, ''trailing with spaces''), (7, ''p1 p2''), (6, ''COMMAND''),
              (5, ''host''), (4, ''ident''), (3, ''nick''), (1, ''tag=val'')] =
     \<lparr>tags = [\<lparr>tag = Some ''tag'', value = Some ''val''\<rparr>], prefix = None,
      nick = Some ''nick'', ident = ''ident'', hostname = ''host'',
      command = Some ''COMMAND'', params = [''p1'', ''p2'', ''trailing with spaces'']\<rparr>"
  by code_simp

lemma parse_line_PING:
  "parse_line (''PING :abc'' @ [CR]) =
     Message \<lparr>tags = [], prefix = None, nick = None, ident = [], hostname = [],
       command = Some ''PING'', params = [''abc'']\<rparr>"
  by code_simp

lemma parse_line_NG:
  "parse_line (''NG :abc'' @ [CR]) =
     Message \<lparr>tags = [], prefix = None, nick = None, ident = [], hostname = [],
       command = Some ''NG'', params = [''abc'']\<rparr>"
  by code_simp

lemma exec_PING:
  "exec parse_regex (replace_first cr_regex (trim ''PING :abc'')) =
     Some (0, 9, [(8, ''abc''), (6, ''PING'')])"
  by code_simp

lemma build_msg_PING:
  "build_msg [(8, ''abc''), (6, ''PING'')] =
     \<lparr>tags = [], prefix = None, nick = None, ident = [], hostname = [],
      command = Some ''PING'', params = [''abc'']\<rparr>"
  by code_simp

text \<open>
  C8 (as the claim states it, refuted). The claim gives \<open>prefix\<close> the value \<open>nick\<close> for
  the line with a full user mask; the object built has no such value.
\<close>

theorem parse_full_mask_prefix_not_nick:
  "parse_line ''@tag=val :nick!ident@host COMMAND p1 p2 :trailing with spaces'' \<noteq>
     Message \<lparr>tags = [\<lparr>tag = Some ''tag'', value = Some ''val''\<rparr>], prefix = Some ''nick'',
       nick = Some ''nick'', ident = ''ident'', hostname = ''host'',
       command = Some ''COMMAND'', params = [''p1'', ''p2'', ''trailing with spaces'']\<rparr>"
proof -
  have "map_of [(8, ''trailing with spaces''), (7, ''p1 p2''), (6, ''COMMAND''),
                (5, ''host''), (4, ''ident''), (3, ''nick''), (1, ''tag=val'')] (2::nat) = None"
    by simp
  then have "prefix (build_msg [(8, ''trailing with spaces''), (7, ''p1 p2''), (6, ''COMMAND''),
                (5, ''host''), (4, ''ident''), (3, ''nick''), (1, ''tag=val'')]) = None"
    by (simp add: build_msg_def Let_def)
  then show ?thesis
    by (auto simp: parse_line_def exec_full_mask)
qed

text \<open>
  C8 (amended). Parsing the line
  \<open>@tag=val :nick!ident@host COMMAND p1 p2 :trailing with spaces\<close> yields the tags
  \<open>[{tag: 'tag', value: 'val'}]\<close>, the nick \<open>nick\<close>, the ident \<open>ident\<close>, the hostname
  \<open>host\<close>, the command \<open>COMMAND\<close> and the params \<open>p1\<close>, \<open>p2\<close>,
  \<open>trailing with spaces\<close>; \<open>prefix\<close> is \<open>undefined\<close>, since the second capture is set
  by a bare source only.
\<close>

theorem parse_full_mask:
  "parse_line ''@tag=val :nick!ident@host COMMAND p1 p2 :trailing with spaces'' =
     Message \<lparr>tags = [\<lparr>tag = Some ''tag'', value = Some ''val''\<rparr>], prefix = None,
       nick = Some ''nick'', ident = ''ident'', hostname = ''host'',
       command = Some ''COMMAND'', params = [''p1'', ''p2'', ''trailing with spaces'']\<rparr>"
proof -
  have "parse_line ''@tag=val :nick!ident@host COMMAND p1 p2 :trailing with spaces'' =
      Message (build_msg [(8, ''trailing with spaces''), (7, ''p1 p2''), (6, ''COMMAND''),
                (5, ''host''), (4, ''ident''), (3, ''nick''), (1, ''tag=val'')])"
    by (simp add: parse_line_def exec_full_mask)
  then show ?thesis
    by (simp only: build_msg_full_mask)
qed

text \<open>
  C2 (as the claim states it, refuted). The line \<open>PING :abc\<close> matches the grammar, and
  \<open>parseMessage\<close> hands nothing to any collaborator: the state, with the log of what
  reached them, is afterwards what it was.
\<close>

theorem parseMessage_forwards_nothing_PING:
  "parse_line ''PING :abc'' =
     Message \<lparr>tags = [], prefix = None, nick = None, ident = [], hostname = [],
       command = Some ''PING'', params = [''abc'']\<rparr>
   \<and> parseMessage ''PING :abc'' session = session"
proof -
  have p: "parse_line ''PING :abc'' =
     Message \<lparr>tags = [], prefix = None, nick = None, ident = [], hostname = [],
       command = Some ''PING'', params = [''abc'']\<rparr>"
    by (simp add: parse_line_def exec_PING build_msg_PING)
  then show ?thesis
    by (simp add: parseMessage_def)
qed

text \<open>
  C2 (amended). For every line that is not empty and matches the message grammar,
  \<open>parseMessage\<close> builds the structured message (tags, prefix, nick, ident, hostname,
  command, params) from the captures, and forwards it nowhere: the method returns
  nothing and leaves the state, with the log of what reached the collaborators,
  as it was. The message is dropped inside the connection.
\<close>

theorem parseMessage_builds_and_drops:
  assumes "line \<noteq> []"
    and "exec parse_regex (replace_first cr_regex (trim line)) = Some (b, e, cs)"
  shows "parse_line line = Message (build_msg cs) \<and> parseMessage line st = st"
  using assms by (simp add: parse_line_def parseMessage_def)

theorem parseMessage_builds_and_drops_witness:
  "''PING :abc'' \<noteq> []
   \<and> exec parse_regex (replace_first cr_regex (trim ''PING :abc'')) =
       Some (0, 9, [(8, ''abc''), (6, ''PING'')])
   \<and> parse_line ''PING :abc'' = Message (build_msg [(8, ''abc''), (6, ''PING'')])
   \<and> parseMessage ''PING :abc'' session = session"
  using parseMessage_builds_and_drops [OF _ exec_PING, of session] exec_PING by simp

section \<open>Properties of the framer\<close>

lemma split_lines_no_LF:
  "LF \<notin> set (drop data_pos dat) \<Longrightarrow>
   split_lines dat data_pos line_start lines = (line_start, lines)"
proof (induction dat data_pos line_start lines rule: split_lines.induct)
  case (1 dat data_pos line_start lines)
  show ?case
  proof (cases "data_pos < length dat")
    case True
    then have d: "drop data_pos dat = dat ! data_pos # drop (Suc data_pos) dat"
      by (simp add: Cons_nth_drop_Suc)
    with "1.prems" have ne: "dat ! data_pos \<noteq> LF"
      and rest: "LF \<notin> set (drop (Suc data_pos) dat)"
      by auto
    from "1.IH"(2) [OF True ne rest] True ne show ?thesis
      by (subst split_lines.simps) simp
  next
    case False
    then show ?thesis by (subst split_lines.simps) simp
  qed
qed

lemma split_lines_lines:
  "snd (split_lines dat data_pos line_start lines) = [] \<longleftrightarrow>
     lines = [] \<and> LF \<notin> set (drop data_pos dat)"
proof (induction dat data_pos line_start lines rule: split_lines.induct)
  case (1 dat data_pos line_start lines)
  show ?case
  proof (cases "data_pos < length dat")
    case lt: True
    then have d: "drop data_pos dat = dat ! data_pos # drop (Suc data_pos) dat"
      by (simp add: Cons_nth_drop_Suc)
    show ?thesis
    proof (cases "dat ! data_pos = LF")
      case True
      with "1.IH"(1) [OF lt True] lt d show ?thesis
        by (subst split_lines.simps) simp
    next
      case False
      with "1.IH"(2) [OF lt False] lt d show ?thesis
        by (subst split_lines.simps) simp
    qed
  next
    case False
    then show ?thesis by (subst split_lines.simps) simp
  qed
qed

lemma split_lines_start:
  "LF \<in> set (drop data_pos dat) \<Longrightarrow>
   fst (split_lines dat data_pos line_start lines) =
     length dat - length (takeWhile (\<lambda>b. b \<noteq> LF) (rev (drop data_pos dat)))"
proof (induction dat data_pos line_start lines rule: split_lines.induct)
  case (1 dat data_pos line_start lines)
  from "1.prems" have lt: "data_pos < length dat"
    by (cases "data_pos < length dat") auto
  then have d: "drop data_pos dat = dat ! data_pos # drop (Suc data_pos) dat"
    by (simp add: Cons_nth_drop_Suc)
  show ?case
  proof (cases "LF \<in> set (drop (Suc data_pos) dat)")
    case True
    then have tw: "takeWhile (\<lambda>b. b \<noteq> LF) (rev (drop data_pos dat)) =
                   takeWhile (\<lambda>b. b \<noteq> LF) (rev (drop (Suc data_pos) dat))"
      by (simp add: d takeWhile_append1 del: drop_Suc)
    show ?thesis
    proof (cases "dat ! data_pos = LF")
      case T: True
      from "1.IH"(1) [OF lt T True] lt T tw show ?thesis
        by (subst split_lines.simps) simp
    next
      case F: False
      from "1.IH"(2) [OF lt F True] lt F tw show ?thesis
        by (subst split_lines.simps) simp
    qed
  next
    case False
    with "1.prems" d have eq: "dat ! data_pos = LF" by auto
    have r: "rev (drop data_pos dat) = rev (drop (Suc data_pos) dat) @ [LF]"
      unfolding d eq by simp
    from False have "\<And>x. x \<in> set (rev (drop (Suc data_pos) dat)) \<Longrightarrow> x \<noteq> LF"
      by auto
    then have tw: "takeWhile (\<lambda>b. b \<noteq> LF) (rev (drop data_pos dat)) =
                   rev (drop (Suc data_pos) dat)"
      unfolding r by (subst takeWhile_append2) simp_all
    have "fst (split_lines dat data_pos line_start lines) = Suc data_pos"
      using lt eq split_lines_no_LF [OF False] by (subst split_lines.simps) simp
    moreover have "length dat - length (rev (drop (Suc data_pos) dat)) = Suc data_pos"
      using lt by simp
    ultimately show ?thesis unfolding tw by simp
  qed
qed

lemma split_lines_PI: "split_lines ''PI'' 0 0 [] = (0, [])"
  by code_simp

lemma split_lines_NG:
  "split_lines (''NG :abc'' @ [CR, LF]) 0 0 [] = (9, [''NG :abc'' @ [CR]])"
  by code_simp

lemma split_lines_PING:
  "split_lines (''PING :abc'' @ [CR, LF]) 0 0 [] = (11, [''PING :abc'' @ [CR]])"
  by code_simp

text \<open>A chunk with one line feed: the bytes before it are the one line.\<close>

lemma split_lines_skip:
  "LF \<notin> set pre \<Longrightarrow> data_pos \<le> length pre \<Longrightarrow>
   split_lines (pre @ rest) data_pos line_start lines =
     split_lines (pre @ rest) (length pre) line_start lines"
proof (induction "length pre - data_pos" arbitrary: data_pos)
  case 0
  then show ?case by simp
next
  case (Suc n)
  then have lt: "data_pos < length pre" by simp
  with Suc.prems have ne: "(pre @ rest) ! data_pos \<noteq> LF"
    by (metis nth_append nth_mem)
  from Suc.hyps(2) have n: "n = length pre - Suc data_pos" by simp
  from lt have le: "Suc data_pos \<le> length pre" by simp
  from Suc.hyps(1) [OF n Suc.prems(1) le] lt ne show ?case
    by (subst split_lines.simps) simp
qed

lemma split_lines_one:
  assumes "LF \<notin> set pre" and "LF \<notin> set post"
  shows "split_lines (pre @ LF # post) 0 0 [] = (Suc (length pre), [pre])"
proof -
  have "split_lines (pre @ LF # post) 0 0 [] = split_lines (pre @ LF # post) (length pre) 0 []"
    using split_lines_skip [OF assms(1), of 0 "LF # post" 0 "[]"] by simp
  also have "\<dots> = split_lines (pre @ LF # post) (Suc (length pre)) (Suc (length pre)) [pre]"
    by (subst split_lines.simps) (simp add: slice_def)
  also have "\<dots> = (Suc (length pre), [pre])"
    using assms(2) by (intro split_lines_no_LF) simp
  finally show ?thesis .
qed

lemma unterminated_after:
  assumes "LF \<notin> set post"
  shows "unterminated (pre @ LF # post) = post"
proof -
  have "takeWhile (\<lambda>b. b \<noteq> LF) (rev post @ LF # rev pre) = rev post"
    using assms by (subst takeWhile_append2) auto
  then show ?thesis by (simp add: unterminated_def)
qed

lemma split_lines_spaces:
  "split_lines (LF # replicate 1000 (CHR '' '')) 0 0 [] = (1, [[]])"
  using split_lines_one [of "[]" "replicate 1000 (CHR '' '')"]
  by (simp add: LF_def)

lemma split_lines_x:
  "split_lines (CHR ''x'' # LF # replicate 100 (CHR ''b'')) 0 0 [] = (2, [''x''])"
  using split_lines_one [of "''x''" "replicate 100 (CHR ''b'')"]
  by (simp add: LF_def)

lemma unterminated_x:
  "unterminated (CHR ''x'' # LF # replicate n (CHR ''b'')) = replicate n (CHR ''b'')"
  using unterminated_after [of "replicate n (CHR ''b'')" "''x''"] by (simp add: LF_def)

text \<open>A line of spaces and \<open>x\<close> is trimmed to \<open>x\<close> before it is matched.\<close>

lemma trim_spaces: "trim (replicate n (CHR '' '') @ ''x'') = ''x''"
proof -
  have "dropWhile is_space (replicate n (CHR '' '') @ ''x'') = dropWhile is_space ''x''"
    by (rule dropWhile_append2) (simp add: is_space_def)
  then show ?thesis by (simp add: trim_def is_space_def)
qed

lemma parse_line_x:
  "parse_line ''x'' = Message \<lparr>tags = [], prefix = None, nick = None, ident = [], hostname = [],
       command = Some ''x'', params = []\<rparr>"
  by code_simp

lemma parse_line_spaces_x:
  "parse_line (replicate 1000 (CHR '' '') @ ''x'') =
     Message \<lparr>tags = [], prefix = None, nick = None, ident = [], hostname = [],
       command = Some ''x'', params = []\<rparr>"
proof -
  have "trim ''x'' = ''x''" using trim_spaces [of 0] by simp
  then have "parse_line (replicate 1000 (CHR '' '') @ ''x'') = parse_line ''x''"
    by (simp add: parse_line_def trim_spaces)
  then show ?thesis by (simp only: parse_line_x)
qed

lemmas session_defs = session_def session_conn_def new_IRC_def

lemmas frame_defs = frame_def hold_rest_def held_length_def max_buffer_size_def

text \<open>
  C1 (the code at the failing input). On a connection that holds nothing yet, the chunk
  \<open>PI\<close> followed by the chunk \<open>NG :abc\r\n\<close> hands the one line \<open>NG :abc\r\<close> to
  the parser, whose command is \<open>NG\<close>; the same bytes in one chunk hand it the line
  \<open>PING :abc\r\<close>. The branch that holds a chunk without a line feed does not set
  \<open>hold_last\<close>, so the bytes held are not joined to the next line.
\<close>

theorem onData_drops_held_prefix:
  "map_sum id snd (feed latin1 [''PI'', ''NG :abc'' @ [CR, LF]] session) = Inr [''NG :abc'' @ [CR]]
   \<and> map_sum id snd (feed latin1 [''PING :abc'' @ [CR, LF]] session) = Inr [''PING :abc'' @ [CR]]
   \<and> parse_line (''NG :abc'' @ [CR]) =
       Message \<lparr>tags = [], prefix = None, nick = None, ident = [], hostname = [],
         command = Some ''NG'', params = [''abc'']\<rparr>"
  using split_lines_NG split_lines_PING parse_line_NG parse_line_PING
  by (simp add: onData_def parsed_lines_def session_defs frame_defs split_lines_PI
        parseMessage_def latin1_def)

lemma frame_no_LF:
  assumes "LF \<notin> set dat"
  shows "frame dat this =
     (if held_length (held_data this) + length dat > max_buffer_size
      then Inr (Overflow this)
      else Inr (Wait (this\<lparr>held_data :=
              (case held_data this of Buf h \<Rightarrow> Buf (h @ dat) | _ \<Rightarrow> Buf dat)\<rparr>)))"
  using assms by (simp add: frame_def split_lines_no_LF)

lemma frame_LF_overflow:
  assumes "LF \<in> set dat" and "max_buffer_size < length (unterminated dat)"
    and "\<not> (hold_last this \<and> held_data this = Undefined)"
  shows "frame dat this =
     Inr (Overflow (if hold_last this \<and> held_data this \<noteq> Null
                    then this\<lparr>hold_last := False, held_data := Null\<rparr> else this))"
proof -
  obtain line_start lines where sl: "split_lines dat 0 0 [] = (line_start, lines)"
    by (cases "split_lines dat 0 0 []")
  from split_lines_lines [of dat 0 0 "[]"] assms(1) sl have "lines \<noteq> []" by simp
  then obtain l ls where lines: "lines = l # ls" by (cases lines) auto
  from split_lines_start [of 0 dat 0 "[]"] assms(1) sl
  have st: "line_start = length dat - length (unterminated dat)"
    by (simp add: unterminated_def)
  have le: "length (unterminated dat) \<le> length dat"
    unfolding unterminated_def using length_takeWhile_le [of _ "rev dat"] by simp
  from assms(2) have pos: "0 < length (unterminated dat)" by arith
  from st le pos have lt: "line_start < length dat" by arith
  from st le have len: "length dat - line_start = length (unterminated dat)" by arith
  show ?thesis
    using assms(2,3) lt len
    by (cases "held_data this") (simp_all add: frame_def sl lines hold_rest_def)
qed

text \<open>The session that holds 1000 bytes is reached from the example session, and the
  chunk \<open>x\<close>, line feed, 100 bytes joins what is held to its first line.\<close>

lemma session_to_held:
  "onData latin1 (LF # replicate 1000 (CHR '' '')) session = Inr session_held"
  by (simp add: onData_def frame_def hold_rest_def split_lines_spaces max_buffer_size_def
      session_def session_conn_def new_IRC_def session_held_def held_conn_def
      parseMessage_def parse_line_def latin1_def)

lemma held_then_line:
  "onData latin1 (CHR ''x'' # LF # replicate 100 (CHR ''b'')) session_held =
     Inr (session\<lparr>connection := Some
            (session_conn\<lparr>hold_last := True, held_data := Buf (replicate 100 (CHR ''b''))\<rparr>)\<rparr>)"
  "parsed_lines latin1 (CHR ''x'' # LF # replicate 100 (CHR ''b'')) session_held =
     [replicate 1000 (CHR '' '') @ ''x'']"
  by (simp_all add: onData_def parsed_lines_def frame_def hold_rest_def split_lines_x
      max_buffer_size_def session_def session_conn_def new_IRC_def session_held_def
      held_conn_def parseMessage_def parse_line_spaces_x latin1_def)

text \<open>
  C7 (as the claim states it, refuted). The connection holds the 1000 bytes of a
  partial line, and the chunk \<open>x\<close>, line feed, 100 bytes \<open>b\<close> brings 100
  unterminated bytes: the held partial line plus the incoming unterminated bytes is
  1100 bytes, more than 1024. \<open>onData\<close> emits no error and leaves the socket as it
  is: it joins the bytes held to \<open>x\<close>, calls the parser on that line of 1001 bytes
  and holds the 100 bytes.
\<close>

theorem held_line_completed_no_overflow:
  "onData latin1 (LF # replicate 1000 (CHR '' '')) session = Inr session_held
   \<and> connection session_held = Some held_conn
   \<and> held_length (held_data held_conn)
        + length (unterminated (CHR ''x'' # LF # replicate 100 (CHR ''b''))) = 1100
   \<and> max_buffer_size < 1100
   \<and> onData latin1 (CHR ''x'' # LF # replicate 100 (CHR ''b'')) session_held =
       Inr (session\<lparr>connection := Some
              (session_conn\<lparr>hold_last := True, held_data := Buf (replicate 100 (CHR ''b''))\<rparr>)\<rparr>)
   \<and> parsed_lines latin1 (CHR ''x'' # LF # replicate 100 (CHR ''b'')) session_held =
       [replicate 1000 (CHR '' '') @ ''x'']"
  using session_to_held held_then_line
  by (simp add: unterminated_x held_length_def held_conn_def session_held_def
      max_buffer_size_def)

text \<open>
  C7 (amended). A chunk makes the framer hold bytes: when the chunk has no line feed,
  the bytes already held followed by the whole chunk; else the bytes after its last
  line feed alone, what was held before being joined to the first line of the chunk or
  replaced, and not counted. If what would be held is longer than 1024 bytes,
  \<open>onData\<close> emits the one error \<open>Message buffer too large\<close>, destroys the socket
  and calls the parser on no line of the chunk. (The connection has a socket, and
  \<open>hold_last\<close> is set only with a buffer held, as it is in every state reached from a
  new connection.)
\<close>

theorem onData_overflow:
  assumes "connection st = Some this" and "socket this = Some s"
    and "\<not> (hold_last this \<and> held_data this = Undefined)"
    and "max_buffer_size <
           (if LF \<in> set dat then length (unterminated dat)
            else held_length (held_data this) + length dat)"
  shows "onData decode dat st =
           Inr (st\<lparr>connection := Some
                  ((if LF \<in> set dat \<and> hold_last this \<and> held_data this \<noteq> Null
                    then this\<lparr>hold_last := False, held_data := Null\<rparr> else this)
                   \<lparr>socket := Some (s\<lparr>destroyed := True\<rparr>)\<rparr>),
                  log := log st @ [BotEmit ''error'' [AStr ''Message buffer too large'']]\<rparr>)
         \<and> parsed_lines decode dat st = []"
proof (cases "LF \<in> set dat")
  case True
  with assms(4) have "max_buffer_size < length (unterminated dat)" by simp
  from frame_LF_overflow [OF True this assms(3)] assms(1,2) True show ?thesis
    by (simp add: onData_def parsed_lines_def emit_def)
next
  case False
  with assms(4) have "max_buffer_size < held_length (held_data this) + length dat" by simp
  with frame_no_LF [OF False, of this] assms(1,2) False show ?thesis
    by (simp add: onData_def parsed_lines_def emit_def)
qed

theorem onData_overflow_witness:
  "connection session_held = Some held_conn \<and> socket held_conn = Some open_socket
   \<and> \<not> (hold_last held_conn \<and> held_data held_conn = Undefined)
   \<and> LF \<notin> set (replicate 25 (CHR ''a''))
   \<and> max_buffer_size < held_length (held_data held_conn) + length (replicate 25 (CHR ''a''))
   \<and> onData latin1 (replicate 25 (CHR ''a'')) session_held =
     Inr (session_held\<lparr>connection := Some
            (held_conn\<lparr>socket := Some (open_socket\<lparr>destroyed := True\<rparr>)\<rparr>),
          log := log session_held @ [BotEmit ''error'' [AStr ''Message buffer too large'']]\<rparr>)
   \<and> parsed_lines latin1 (replicate 25 (CHR ''a'')) session_held = []
   \<and> LF \<in> set (CHR ''x'' # LF # replicate 1025 (CHR ''b''))
   \<and> max_buffer_size < length (unterminated (CHR ''x'' # LF # replicate 1025 (CHR ''b'')))
   \<and> onData latin1 (CHR ''x'' # LF # replicate 1025 (CHR ''b'')) session_held =
     Inr (session_held\<lparr>connection := Some
            (held_conn\<lparr>hold_last := False, held_data := Null,
                       socket := Some (open_socket\<lparr>destroyed := True\<rparr>)\<rparr>),
          log := log session_held @ [BotEmit ''error'' [AStr ''Message buffer too large'']]\<rparr>)
   \<and> parsed_lines latin1 (CHR ''x'' # LF # replicate 1025 (CHR ''b'')) session_held = []"
proof -
  have n: "LF \<notin> set (replicate 25 (CHR ''a''))" by (simp add: LF_def)
  have c: "connection session_held = Some held_conn" by (simp add: session_held_def)
  have s: "socket held_conn = Some open_socket" by (simp add: held_conn_def session_conn_def)
  have h: "\<not> (hold_last held_conn \<and> held_data held_conn = Undefined)"
    by (simp add: held_conn_def)
  have m: "max_buffer_size <
           (if LF \<in> set (replicate 25 (CHR ''a''))
            then length (unterminated (replicate 25 (CHR ''a'')))
            else held_length (held_data held_conn) + length (replicate 25 (CHR ''a'')))"
    using n by (simp add: max_buffer_size_def held_length_def held_conn_def)
  have u: "unterminated (CHR ''x'' # LF # replicate 1025 (CHR ''b'')) = replicate 1025 (CHR ''b'')"
    by (rule unterminated_x)
  have l: "LF \<in> set (CHR ''x'' # LF # replicate 1025 (CHR ''b''))" by simp
  have m2: "max_buffer_size <
           (if LF \<in> set (CHR ''x'' # LF # replicate 1025 (CHR ''b''))
            then length (unterminated (CHR ''x'' # LF # replicate 1025 (CHR ''b'')))
            else held_length (held_data held_conn)
                 + length (CHR ''x'' # LF # replicate 1025 (CHR ''b'')))"
    by (simp only: l u if_True) (simp add: max_buffer_size_def)
  have hl: "hold_last held_conn" "held_data held_conn \<noteq> Null" by (simp_all add: held_conn_def)
  note t1 = onData_overflow [OF c s h m, of latin1]
  note t2 = onData_overflow [OF c s h m2, of latin1]
  from t1 n have r1: "onData latin1 (replicate 25 (CHR ''a'')) session_held =
     Inr (session_held\<lparr>connection := Some
            (held_conn\<lparr>socket := Some (open_socket\<lparr>destroyed := True\<rparr>)\<rparr>),
          log := log session_held @ [BotEmit ''error'' [AStr ''Message buffer too large'']]\<rparr>)"
    "parsed_lines latin1 (replicate 25 (CHR ''a'')) session_held = []"
    by simp_all
  from t2 hl have r2: "onData latin1 (CHR ''x'' # LF # replicate 1025 (CHR ''b'')) session_held =
     Inr (session_held\<lparr>connection := Some
            (held_conn\<lparr>hold_last := False, held_data := Null,
                       socket := Some (open_socket\<lparr>destroyed := True\<rparr>)\<rparr>),
          log := log session_held @ [BotEmit ''error'' [AStr ''Message buffer too large'']]\<rparr>)"
    "parsed_lines latin1 (CHR ''x'' # LF # replicate 1025 (CHR ''b'')) session_held = []"
    by (simp_all only: l hl if_True simp_thms)
  have mm: "max_buffer_size < held_length (held_data held_conn) + length (replicate 25 (CHR ''a''))"
    by (simp add: max_buffer_size_def held_length_def held_conn_def)
  have mu: "max_buffer_size < length (unterminated (CHR ''x'' # LF # replicate 1025 (CHR ''b'')))"
    by (simp only: u) (simp add: max_buffer_size_def)
  from c s h n mm r1 l mu r2 show ?thesis by blast
qed

section \<open>Properties of the handshake\<close>

lemma generate_nick_default:
  "generate_nick nk False st =
     (newnick_of nk (random st),
      st\<lparr>random := snd (replace_q nk (random st)), net_nick := newnick_of nk (random st)\<rparr>)"
  by (subst generate_nick.simps) (simp add: Let_def)

lemma foldl_join:
  "foldl (\<lambda>s nm. emit (ChannelJoin nm) s) s xs = s\<lparr>log := log s @ map ChannelJoin xs\<rparr>"
  by (induction xs arbitrary: s) (simp_all add: emit_def)

lemma onRegistered_eq:
  "onRegistered st =
     st\<lparr>auto_disable_times := 0, auto_disable_interval := 180000,
        connection_attempts := options_connection_attempts st,
        log := log st @ map ChannelJoin (channel st)\<rparr>"
  by (simp add: onRegistered_def foldl_join)

lemma bot_emit_fields [simp]:
  "connection (bot_emit ev sv st) = connection st"
  "user (bot_emit ev sv st) = user st" "realname (bot_emit ev sv st) = realname st"
  "modes (bot_emit ev sv st) = modes st" "password (bot_emit ev sv st) = password st"
  "net_nick (bot_emit ev sv st) = net_nick st" "random (bot_emit ev sv st) = random st"
  "heap (bot_emit ev sv st) = heap st"
  by (simp_all add: bot_emit_def Let_def emit_def onRegistered_eq)

lemma send_login_eq:
  "send_login this st =
     (let pw = js_or (case sv_at st (server this) of Some s \<Rightarrow> sv_password s | None \<Rightarrow> None)
                 (password st);
          nk = newnick_of (net_nick st) (random st);
          st1 = st\<lparr>random := snd (replace_q (net_nick st) (random st)), net_nick := nk\<rparr>
      in (send (''USER '' @ user st @ '' '' @ (if ''i'' \<in> set (modes st) then ''8'' else ''0'')
                 @ '' * :'' @ realname st)
            (send (''NICK '' @ nk)
               (if truthy pw then send (''PASS '' @ or_empty pw) this else this)),
          st1))"
  by (simp add: send_login_def generate_nick_default Let_def)

lemma send_keeps [simp]:
  "c_connected (send dat this) = c_connected this" "socket (send dat this) = socket this"
  "pong_timer (send dat this) = pong_timer this" "server (send dat this) = server this"
  by (simp_all add: send_def)

lemma send_buffer_eq [simp]:
  "buffer (send dat this) =
     (if c_connected this \<and> socket this \<noteq> None then buffer this @ [dat @ [CR, LF]]
      else buffer this)"
  by (simp add: send_def)

lemma sent_simps [simp]:
  "sent (emit e st) = sent st" "sent (bot_emit ev sv st) = sent st"
  "sent (st\<lparr>connection := Some this\<rparr>) = buffer this"
  by (simp_all add: sent_def emit_def)

lemma newnick_kwirk: "newnick_of ''kwirk'' [] = ''kwirk''"
  by code_simp

lemma net_pw_eq:
  "net_pw = (new_IRC ''net'')
     \<lparr>enable := True, password := Some ''pw'', heap := [example_server], servers := [0]\<rparr>"
  by (simp add: net_pw_def new_IRC_def addServer_def Let_def serverExists_def)

lemma connect_net_pw:
  "connect net_pw = net_pw
     \<lparr>index := 0, active_server := Some 0,
      connection := Some ((new_IrcConnection 0)\<lparr>socket := Some
        \<lparr>sock_host = ''irc.example.org'', sock_port = 6667, sock_tls = False,
         listeners = [''connect'', ''error''], ended = False, destroyed = False\<rparr>\<rparr>),
      log := [HookPre ''connect'']\<rparr>"
  by (simp add: net_pw_eq new_IRC_def sv_at_def at_index_def example_server_def connect_def
      next_server_def disabled_def enabled_def findEnabled_def c_connect_def
      new_IrcConnection_def emit_def)

lemma handshake_net_pw:
  "map_sum id sent (connectionSetup (connect net_pw)) =
     Inr [''CAP LS '' @ [CR, LF], ''CAP END'' @ [CR, LF], ''PASS pw'' @ [CR, LF],
          ''NICK kwirk'' @ [CR, LF], ''USER KwirK 8 * :KwirK IRC Bot'' @ [CR, LF]]"
  unfolding connect_net_pw
  by (simp add: connectionSetup_def Let_def send_login_eq send_cap_ls_def send_cap_end_def
      sv_at_def at_index_def net_pw_eq new_IRC_def new_IrcConnection_def example_server_def
      js_or_def truthy_def or_empty_def newnick_kwirk)

text \<open>
  C3 (as the claim states it, refuted). With the password \<open>pw\<close> configured, the lines
  pushed on connect acknowledgment are \<open>CAP LS \<close>, \<open>CAP END\<close>, \<open>PASS pw\<close>,
  \<open>NICK kwirk\<close>, \<open>USER KwirK 8 * :KwirK IRC Bot\<close> in this order: \<open>PASS\<close> is not the
  first line.
\<close>

theorem handshake_PASS_after_CAP:
  "map_sum id sent (connectionSetup (connect net_pw)) =
     Inr [''CAP LS '' @ [CR, LF], ''CAP END'' @ [CR, LF], ''PASS pw'' @ [CR, LF],
          ''NICK kwirk'' @ [CR, LF], ''USER KwirK 8 * :KwirK IRC Bot'' @ [CR, LF]]
   \<and> map_sum id sent (connectionSetup (connect net_pw)) \<noteq>
     Inr [''PASS pw'' @ [CR, LF], ''CAP LS '' @ [CR, LF], ''CAP END'' @ [CR, LF],
          ''NICK kwirk'' @ [CR, LF], ''USER KwirK 8 * :KwirK IRC Bot'' @ [CR, LF]]"
  by (simp add: handshake_net_pw)

text \<open>
  C3 (amended). On transport connect acknowledgment, on a connection with its socket,
  the lines pushed are, in this order: \<open>CAP LS \<close>, then \<open>CAP END\<close>, then
  \<open>PASS <password>\<close> only when the server or else the network has a password that is
  not empty, then \<open>NICK <generated-nick>\<close>, then \<open>USER <user> <mode-flag> * :<realname>\<close>,
  where the mode-flag is 8 if \<open>i\<close> is among the configured modes and 0 otherwise. Each
  line ends with carriage return and line feed.
\<close>

theorem connectionSetup_handshake:
  assumes "connection st = Some this" and "socket this = Some s"
  shows "map_sum id sent (connectionSetup st) = Inr (buffer this
       @ [''CAP LS '' @ [CR, LF], ''CAP END'' @ [CR, LF]]
       @ (if truthy (js_or (case sv_at st (server this) of
                              Some sv \<Rightarrow> sv_password sv | None \<Rightarrow> None) (password st))
          then [''PASS '' @ or_empty (js_or (case sv_at st (server this) of
                              Some sv \<Rightarrow> sv_password sv | None \<Rightarrow> None) (password st))
                  @ [CR, LF]]
          else [])
       @ [''NICK '' @ newnick_of (net_nick st) (random st) @ [CR, LF],
          ''USER '' @ user st @ '' '' @ (if ''i'' \<in> set (modes st) then ''8'' else ''0'')
             @ '' * :'' @ realname st @ [CR, LF]])"
  using assms
  by (simp add: connectionSetup_def Let_def send_login_eq send_cap_ls_def
      send_cap_end_def sv_at_def)

theorem connectionSetup_handshake_witness:
  "connection (connect net_pw) = Some ((new_IrcConnection 0)\<lparr>socket := Some
        \<lparr>sock_host = ''irc.example.org'', sock_port = 6667, sock_tls = False,
         listeners = [''connect'', ''error''], ended = False, destroyed = False\<rparr>\<rparr>)
   \<and> map_sum id sent (connectionSetup (connect net_pw)) =
     Inr [''CAP LS '' @ [CR, LF], ''CAP END'' @ [CR, LF], ''PASS pw'' @ [CR, LF],
          ''NICK kwirk'' @ [CR, LF], ''USER KwirK 8 * :KwirK IRC Bot'' @ [CR, LF]]"
proof -
  let ?c0 = "(new_IrcConnection 0)\<lparr>socket := Some
        \<lparr>sock_host = ''irc.example.org'', sock_port = 6667, sock_tls = False,
         listeners = [''connect'', ''error''], ended = False, destroyed = False\<rparr>\<rparr>"
  have c: "connection (connect net_pw) = Some ?c0"
    by (simp add: connect_net_pw)
  have s: "socket ?c0 = Some \<lparr>sock_host = ''irc.example.org'', sock_port = 6667, sock_tls = False,
         listeners = [''connect'', ''error''], ended = False, destroyed = False\<rparr>"
    by simp
  have f: "sv_at (connect net_pw) 0 = Some example_server" "password (connect net_pw) = Some ''pw''"
    "net_nick (connect net_pw) = ''kwirk''" "random (connect net_pw) = []"
    "user (connect net_pw) = ''KwirK''" "realname (connect net_pw) = ''KwirK IRC Bot''"
    "modes (connect net_pw) = [''i'']"
    unfolding connect_net_pw by (simp_all add: net_pw_eq new_IRC_def sv_at_def at_index_def)
  from connectionSetup_handshake [OF c s] c show ?thesis
    by (simp add: f new_IrcConnection_def example_server_def js_or_def truthy_def or_empty_def
        newnick_kwirk)
qed


section \<open>Properties of the selection of a server\<close>

lemma pool3_eq:
  "pool3 = (new_IRC ''net'')
     \<lparr>enable := True, heap := [server_A, server_B, server_C], servers := [0, 1, 2]\<rparr>"
  by (simp add: pool3_def new_IRC_def addServer_def Let_def serverExists_def sv_at_def
      at_index_def server_A_def server_B_def server_C_def)

lemmas pool_defs = new_IRC_def sv_at_def at_index_def server_A_def server_B_def server_C_def
  next_server_def disabled_def enabled_def findEnabled_def Let_def

lemma pool3_step1: "next_server None pool3 = (Some (Suc 0), pool3\<lparr>index := Suc 0\<rparr>)"
  by (simp add: pool3_eq pool_defs)

lemma pool3_step2:
  "next_server None (pool3\<lparr>index := Suc 0\<rparr>) = (Some (Suc 0), pool3\<lparr>index := 2\<rparr>)"
  by (simp add: pool3_eq pool_defs)

lemma pool3_step3: "next_server None (pool3\<lparr>index := 2\<rparr>) = (Some 2, pool3)"
  by (simp add: pool3_eq pool_defs)

lemma selections_3:
  "selections (3 + n) pool3 = [Some 1, Some 1, Some 2] @ selections n pool3"
proof -
  have "selections (3 + n) pool3 = selections (Suc (Suc (Suc n))) pool3"
    by (simp add: numeral_3_eq_3)
  also have "\<dots> = [Some 1, Some 1, Some 2] @ selections n pool3"
    by (simp add: pool3_step1 pool3_step2 pool3_step3)
  finally show ?thesis .
qed

lemma selections_cycle:
  "selections (3 * m) pool3 = concat (replicate m [Some 1, Some 1, Some 2])"
proof (induction m)
  case 0
  show ?case by simp
next
  case (Suc m)
  have "3 * Suc m = 3 + 3 * m" by simp
  then show ?case using selections_3 [of "3 * m"] Suc by simp
qed

lemma selections_4: "selections 4 pool3 = [Some 1, Some 1, Some 2, Some 1]"
proof -
  have "selections 4 pool3 = selections (3 + 1) pool3" by simp
  also have "\<dots> = [Some 1, Some 1, Some 2] @ selections 1 pool3" by (rule selections_3)
  also have "\<dots> = [Some 1, Some 1, Some 2, Some 1]" by (simp add: pool3_step1)
  finally show ?thesis .
qed

lemma enabled_index [simp]: "enabled (st\<lparr>index := i\<rparr>) = enabled st"
  by (rule ext) (simp add: enabled_def sv_at_def)

lemma disabled_index [simp]: "disabled (st\<lparr>index := i\<rparr>) = disabled st"
  by (rule ext) (simp add: disabled_def sv_at_def)

lemma findEnabled_index [simp]: "findEnabled (st\<lparr>index := i\<rparr>) = findEnabled st"
  by (simp add: findEnabled_def)

lemma next_server_index:
  "index (snd (next_server None st)) =
     (if length (servers st) = 0 then 0 else (index st + 1) mod length (servers st))"
  by (simp add: next_server_def Let_def emit_def split: option.splits)

lemma next_server_result:
  "fst (next_server None st) =
     (case at_index (servers st) (index st) of
        None \<Rightarrow> None
      | Some r \<Rightarrow> if disabled st r then findEnabled st else Some r)"
  by (simp add: next_server_def Let_def split: option.splits)

text \<open>
  C4 (as the claim states it, refuted). For the pool A (disabled), B, C, the first four
  calls of \<open>next_server()\<close> return B, B, C, B and not B, C, B, C: the cursor stands on A,
  then on B, then on C, and B is the first enabled server when it stands on A.
\<close>

theorem selection_B_B_C:
  "selections 4 pool3 = [Some 1, Some 1, Some 2, Some 1]
   \<and> selections 4 pool3 \<noteq> [Some 1, Some 2, Some 1, Some 2]"
  by (simp add: selections_4)

text \<open>
  C4 (amended). A call of \<open>next_server()\<close> moves the cursor by one modulo the length
  of the pool (to 0 for an empty pool); it returns the server at the cursor, or, when
  that server is disabled, the first enabled server found by a linear scan of the pool.
  Consequently, for the pool A (disabled), B, C, successive calls yield B, B, C,
  repeating.
\<close>

theorem next_server_round_robin:
  "index (snd (next_server None st)) =
     (if length (servers st) = 0 then 0 else (index st + 1) mod length (servers st))
   \<and> fst (next_server None st) =
     (case at_index (servers st) (index st) of
        None \<Rightarrow> None
      | Some r \<Rightarrow> if disabled st r then findEnabled st else Some r)
   \<and> findEnabled st = find (enabled st) (servers st)
   \<and> (\<forall>m. selections (3 * m) pool3 = concat (replicate m [Some 1, Some 1, Some 2]))"
  using next_server_index next_server_result selections_cycle
  by (simp add: findEnabled_def)

section \<open>Properties of the reconnect delay\<close>

lemma reconnect_conn:
  "connection st = Some this \<Longrightarrow>
   connection (reconnect st) =
     Some (this\<lparr>reconnect_delay := times_or (reconnect_delay this) (reconnect_attempts this),
               reconnect_timer := Some
                 \<lparr>interval = times_or (reconnect_delay this) (reconnect_attempts this),
                  running = True\<rparr>\<rparr>)"
  by (simp add: reconnect_def Let_def emit_def split: option.splits)

lemma reconnect_attempts_kept [simp]:
  "connection_attempts (reconnect st) = connection_attempts st"
  by (simp add: reconnect_def Let_def emit_def split: option.splits)

lemma onError_timeout_conn:
  assumes "connection st = Some this" and "connection_attempts st \<le> reconnect_attempts this"
  shows "connection (onError ETIMEDOUT st) =
     Some (this\<lparr>reconnect_attempts := reconnect_attempts this + 1,
               reconnect_delay := times_or (reconnect_delay this) (reconnect_attempts this + 1),
               reconnect_timer := Some
                 \<lparr>interval = times_or (reconnect_delay this) (reconnect_attempts this + 1),
                  running = True\<rparr>\<rparr>)
   \<and> connection_attempts (onError ETIMEDOUT st) = connection_attempts st"
  using assms by (simp add: onError_def Let_def emit_def reconnect_conn)

text \<open>\<open>IrcConnection.connect\<close> leaves the attempt count, the delay and the reconnect
  timer as they are.\<close>

lemma c_connect_reconnect:
  assumes "connection st = Some this"
  shows "\<exists>this'. connection (c_connect st) = Some this'
           \<and> reconnect_attempts this' = reconnect_attempts this
           \<and> reconnect_delay this' = reconnect_delay this
           \<and> reconnect_timer this' = reconnect_timer this"
    and "connection_attempts (c_connect st) = connection_attempts st"
  using assms by (auto simp: c_connect_def emit_def split: option.splits)

lemma times_or_fact: "times_or (d * fact k) (Suc k) = d * fact (Suc k)"
  by (simp add: times_or_def algebra_simps)

lemma timeout_rounds_fact:
  assumes "connection st = Some this" and "connection_attempts st = 0"
    and "reconnect_attempts this = 0"
  shows "\<exists>c. connection ((timeout_round ^^ k) st) = Some c
           \<and> reconnect_attempts c = k
           \<and> reconnect_delay c = reconnect_delay this * fact k
           \<and> reconnect_timer c =
               (if k = 0 then reconnect_timer this
                else Some \<lparr>interval = reconnect_delay this * fact k, running = True\<rparr>)
           \<and> connection_attempts ((timeout_round ^^ k) st) = 0"
proof (induction k)
  case 0
  from assms show ?case by simp
next
  case (Suc k)
  then obtain c where c: "connection ((timeout_round ^^ k) st) = Some c"
    and a: "reconnect_attempts c = k"
    and d: "reconnect_delay c = reconnect_delay this * fact k"
    and n: "connection_attempts ((timeout_round ^^ k) st) = 0"
    by blast
  from n have le: "connection_attempts ((timeout_round ^^ k) st) \<le> reconnect_attempts c"
    by simp
  note e = onError_timeout_conn [OF c le]
  from e have ec: "connection (onError ETIMEDOUT ((timeout_round ^^ k) st)) =
     Some (c\<lparr>reconnect_attempts := reconnect_attempts c + 1,
             reconnect_delay := times_or (reconnect_delay c) (reconnect_attempts c + 1),
             reconnect_timer := Some
               \<lparr>interval = times_or (reconnect_delay c) (reconnect_attempts c + 1),
                running = True\<rparr>\<rparr>)"
    by blast
  have step: "(timeout_round ^^ Suc k) st =
      c_connect (onError ETIMEDOUT ((timeout_round ^^ k) st))"
    by (simp add: timeout_round_def)
  from c_connect_reconnect(1) [OF ec] obtain c' where
    c': "connection (c_connect (onError ETIMEDOUT ((timeout_round ^^ k) st))) = Some c'"
    and a': "reconnect_attempts c' = reconnect_attempts c + 1"
    and d': "reconnect_delay c' = times_or (reconnect_delay c) (reconnect_attempts c + 1)"
    and t': "reconnect_timer c' = Some
               \<lparr>interval = times_or (reconnect_delay c) (reconnect_attempts c + 1),
                running = True\<rparr>"
    by auto
  from c_connect_reconnect(2) [OF ec] e n
  have n': "connection_attempts (c_connect (onError ETIMEDOUT ((timeout_round ^^ k) st))) = 0"
    by simp
  from a d have f: "times_or (reconnect_delay c) (reconnect_attempts c + 1) =
      reconnect_delay this * fact (Suc k)"
    using times_or_fact [of "reconnect_delay this" k] by simp
  show ?case
    unfolding step using c' a' d' t' n' a f by simp
qed

lemma net_noretry_eq:
  "net_noretry = (new_IRC ''net'')
     \<lparr>enable := True, connection_attempts := 0, options_connection_attempts := 0,
      heap := [example_server], servers := [0]\<rparr>"
  by (simp add: net_noretry_def new_IRC_def addServer_def Let_def serverExists_def)

lemma connect_net_noretry:
  "connect net_noretry = net_noretry
     \<lparr>index := 0, active_server := Some 0,
      connection := Some ((new_IrcConnection 0)\<lparr>socket := Some
        \<lparr>sock_host = ''irc.example.org'', sock_port = 6667, sock_tls = False,
         listeners = [''connect'', ''error''], ended = False, destroyed = False\<rparr>\<rparr>),
      log := [HookPre ''connect'']\<rparr>"
  by (simp add: net_noretry_eq new_IRC_def sv_at_def at_index_def example_server_def
      connect_def next_server_def disabled_def enabled_def findEnabled_def c_connect_def
      new_IrcConnection_def emit_def)

lemma connect_net_noretry_conn:
  "connection (connect net_noretry) = Some ((new_IrcConnection 0)\<lparr>socket := Some
        \<lparr>sock_host = ''irc.example.org'', sock_port = 6667, sock_tls = False,
         listeners = [''connect'', ''error''], ended = False, destroyed = False\<rparr>\<rparr>)"
  by (simp add: connect_net_noretry)

lemma connect_net_noretry_attempts: "connection_attempts (connect net_noretry) = 0"
  unfolding connect_net_noretry by (simp add: net_noretry_eq new_IRC_def)

lemma fact_3: "fact 3 = (6::nat)"
  by (simp add: numeral_3_eq_3)

lemma three_timeout_rounds:
  "map_option (\<lambda>c. (reconnect_attempts c, reconnect_timer c))
       (connection ((timeout_round ^^ 3) (connect net_noretry))) =
     Some (3, Some \<lparr>interval = 30000, running = True\<rparr>)"
proof -
  have r: "reconnect_attempts ((new_IrcConnection 0)\<lparr>socket := Some
        \<lparr>sock_host = ''irc.example.org'', sock_port = 6667, sock_tls = False,
         listeners = [''connect'', ''error''], ended = False, destroyed = False\<rparr>\<rparr>) = 0"
    by (simp add: new_IrcConnection_def)
  from timeout_rounds_fact [OF connect_net_noretry_conn connect_net_noretry_attempts r, of 3]
  obtain c where "connection ((timeout_round ^^ 3) (connect net_noretry)) = Some c"
    and "reconnect_attempts c = 3"
    and "reconnect_timer c = Some \<lparr>interval = 5000 * fact 3, running = True\<rparr>"
    by (auto simp: new_IrcConnection_def)
  then show ?thesis by (simp add: fact_3)
qed

text \<open>
  C5 (as the claim states it, refuted). The ceiling \<open>connection_attempts\<close> is 0 and the
  connection is new, with the delay 5000. Three times a connect attempt times out and
  the reconnect timer, once fired, makes the connection connect again. The third time
  the attempt count is 3 and the interval of the reconnect timer is 30000, not 5000
  times 3.
\<close>

theorem third_reconnect_delay:
  "map_option reconnect_delay (connection (connect net_noretry)) = Some 5000
   \<and> map_option (\<lambda>c. (reconnect_attempts c, reconnect_timer c))
       (connection ((timeout_round ^^ 3) (connect net_noretry))) =
     Some (3, Some \<lparr>interval = 30000, running = True\<rparr>)
   \<and> (30000 :: nat) \<noteq> 5000 * 3"
  using three_timeout_rounds connect_net_noretry_conn
  by (simp add: new_IrcConnection_def)

text \<open>
  C5 (amended). \<open>reconnect\<close> sets the interval of the reconnect timer to the delay
  stored on the connection multiplied by the attempt count, or to the stored delay when
  that product is 0, as it is with no prior attempt; the result is stored as the new
  delay. So the delay compounds: after \<open>k \<ge> 1\<close> rounds of timeout and reconnection on a
  new connection whose ceiling \<open>connection_attempts\<close> is 0, the interval is the base
  delay multiplied by the factorial of \<open>k\<close> (as long as that number is below \<open>2 ^ 53\<close>),
  which is the base delay times \<open>k\<close> for \<open>k \<le> 2\<close> only.
\<close>

theorem reconnect_delay_compounds:
  assumes "connection st = Some this"
  shows "connection (reconnect st) =
     Some (this\<lparr>reconnect_delay :=
                 (if reconnect_delay this * reconnect_attempts this = 0 then reconnect_delay this
                  else reconnect_delay this * reconnect_attempts this),
               reconnect_timer := Some
                 \<lparr>interval =
                    (if reconnect_delay this * reconnect_attempts this = 0
                     then reconnect_delay this
                     else reconnect_delay this * reconnect_attempts this),
                  running = True\<rparr>\<rparr>)
    \<and> (connection_attempts st = 0 \<and> reconnect_attempts this = 0 \<and> 1 \<le> k
        \<and> reconnect_delay this * fact k < 2 ^ 53 \<longrightarrow>
         map_option reconnect_timer (connection ((timeout_round ^^ k) st)) =
           Some (Some \<lparr>interval = reconnect_delay this * fact k, running = True\<rparr>))"
proof -
  have "map_option reconnect_timer (connection ((timeout_round ^^ k) st)) =
           Some (Some \<lparr>interval = reconnect_delay this * fact k, running = True\<rparr>)"
    if "connection_attempts st = 0" "reconnect_attempts this = 0" "1 \<le> k"
    using timeout_rounds_fact [OF assms that(1,2), of k] that(3) by auto
  with reconnect_conn [OF assms] show ?thesis
    by (simp add: times_or_def)
qed

theorem reconnect_delay_compounds_witness:
  "connection (connect net_noretry) = Some ((new_IrcConnection 0)\<lparr>socket := Some
        \<lparr>sock_host = ''irc.example.org'', sock_port = 6667, sock_tls = False,
         listeners = [''connect'', ''error''], ended = False, destroyed = False\<rparr>\<rparr>)
   \<and> connection_attempts (connect net_noretry) = 0
   \<and> (1 :: nat) \<le> 3 \<and> (5000 :: nat) * fact 3 < 2 ^ 53
   \<and> map_option reconnect_timer (connection (reconnect (connect net_noretry))) =
       Some (Some \<lparr>interval = 5000, running = True\<rparr>)
   \<and> map_option reconnect_timer (connection ((timeout_round ^^ 3) (connect net_noretry))) =
       Some (Some \<lparr>interval = 30000, running = True\<rparr>)"
  using reconnect_delay_compounds [OF connect_net_noretry_conn, of 3]
    connect_net_noretry_conn connect_net_noretry_attempts
  by (simp add: new_IrcConnection_def fact_3)

section \<open>Properties of the pool: what the operations leave alone\<close>

lemma c_disconnect_frame [simp]:
  "servers (c_disconnect m st) = servers st" "heap (c_disconnect m st) = heap st"
  by (simp_all add: c_disconnect_def emit_def split: option.splits)

lemma dispose_frame [simp]:
  "servers (dispose m st) = servers st" "heap (dispose m st) = heap st"
  by (simp_all add: dispose_def Let_def split: option.splits)

lemma c_connect_frame [simp]:
  "servers (c_connect st) = servers st" "heap (c_connect st) = heap st"
  by (simp_all add: c_connect_def emit_def split: option.splits)

lemma next_server_frame [simp]:
  "servers (snd (next_server i st)) = servers st" "heap (snd (next_server i st)) = heap st"
  by (simp_all add: next_server_def Let_def emit_def split: option.splits)

lemma next_server_frame2:
  "next_server i st = (sv, st') \<Longrightarrow> servers st' = servers st \<and> heap st' = heap st"
  using next_server_frame [of i st] by simp

lemma connect_servers [simp]: "servers (connect st) = servers st"
proof -
  obtain sv st' where
    n: "next_server None (if connection st \<noteq> None then dispose None st else st) = (sv, st')"
    by (cases "next_server None (if connection st \<noteq> None then dispose None st else st)")
  from next_server_frame2 [OF n] have "servers st' = servers st" by (simp split: if_splits)
  with n show ?thesis
    by (simp add: connect_def Let_def emit_def split: option.splits)
qed

lemma connect_heap [simp]: "heap (connect st) = heap st"
proof -
  obtain sv st' where
    n: "next_server None (if connection st \<noteq> None then dispose None st else st) = (sv, st')"
    by (cases "next_server None (if connection st \<noteq> None then dispose None st else st)")
  from next_server_frame2 [OF n] have "heap st' = heap st" by (simp split: if_splits)
  with n show ?thesis
    by (simp add: connect_def Let_def emit_def split: option.splits)
qed

lemma disconnect_frame [simp]:
  "servers (disconnect m cb st) = servers st" "heap (disconnect m cb st) = heap st"
  by (simp_all add: disconnect_def Let_def emit_def)


lemma enabled_heap: "heap st' = heap st \<Longrightarrow> enabled st' = enabled st"
  by (rule ext) (simp add: enabled_def sv_at_def)

section \<open>Properties of the auto-disable backoff\<close>

lemma pool1_eq:
  "pool1 = (new_IRC ''net'')\<lparr>enable := True, heap := [server_A], servers := [0]\<rparr>"
  by (simp add: pool1_def new_IRC_def addServer_def Let_def serverExists_def)

lemmas eval_defs = new_IRC_def sv_at_def at_index_def server_A_def connect_def next_server_def
  disabled_def enabled_def findEnabled_def c_connect_def new_IrcConnection_def emit_def
  dispose_def disposeSocket_def stop_def c_disconnect_def times_or_def disableCheck_def
  enable_all_def set_enabled_def onError_def Let_def

lemma three_escalations:
  "auto_disable_times (connect (onError ENETUNREACH (disableCheck (connect
      (onError ENETUNREACH (disableCheck (connect pool1))))))) = 3
   \<and> auto_disabled_timer (connect (onError ENETUNREACH (disableCheck (connect
      (onError ENETUNREACH (disableCheck (connect pool1))))))) =
     Some \<lparr>interval = 1080000, running = True\<rparr>"
  unfolding pool1_eq by (simp add: eval_defs)

lemma next_server_escalates:
  assumes "at_index (servers st) (index st) = Some r" and "disabled st r"
    and "findEnabled st = None"
  shows "next_server None st =
    (None, st\<lparr>index := (index st + 1) mod length (servers st),
              enable := False,
              auto_disable_times := auto_disable_times st + 1,
              auto_disable_interval :=
                times_or (auto_disable_interval st) (auto_disable_times st + 1),
              log := log st @ [LoggerWarn ''no servers enabled, starting auto disabled timer'' []],
              auto_disabled_timer := Some
                \<lparr>interval = times_or (auto_disable_interval st) (auto_disable_times st + 1),
                 running = True\<rparr>\<rparr>)"
proof -
  from assms(1) have "servers st \<noteq> []" by (auto simp: at_index_def split: if_splits)
  with assms show ?thesis
    by (simp add: next_server_def Let_def emit_def)
qed

lemma set_enabled_heap_len [simp]: "length (heap (set_enabled b r st)) = length (heap st)"
  by (simp add: set_enabled_def split: option.splits)

lemma set_enabled_servers [simp]: "servers (set_enabled b r st) = servers st"
  by (simp add: set_enabled_def split: option.splits)

lemma foldl_set_enabled_servers [simp]:
  "servers (foldl (\<lambda>s r. set_enabled b r s) st rs) = servers st"
  by (induction rs arbitrary: st) simp_all

lemma foldl_set_enabled_len [simp]:
  "length (heap (foldl (\<lambda>s r. set_enabled b r s) st rs)) = length (heap st)"
  by (induction rs arbitrary: st) simp_all

lemma enabled_set_enabled:
  "enabled (set_enabled True r st) q =
     (if q = r \<and> r < length (heap st) then True else enabled st q)"
  by (auto simp: enabled_def set_enabled_def sv_at_def at_index_def split: option.splits)

lemma enabled_foldl:
  "enabled (foldl (\<lambda>s r. set_enabled True r s) st rs) q =
     (if q \<in> set rs \<and> q < length (heap st) then True else enabled st q)"
  by (induction rs arbitrary: st) (auto simp: enabled_set_enabled)

lemma enable_all_enabled:
  "refs_ok st \<Longrightarrow> list_all (enabled (enable_all st)) (servers st)"
  by (simp add: refs_ok_def enable_all_def list_all_iff enabled_foldl)

lemma enable_all_servers [simp]: "servers (enable_all st) = servers st"
  by (simp add: enable_all_def)

lemma disableCheck_eq:
  "disableCheck st =
     (emit Done (connect (enable_all
        ((emit (LoggerInfo ''auto disabled timer invoked network server enabling'') st)
           \<lparr>enable := True\<rparr>))))
     \<lparr>auto_disabled_timer := None\<rparr>"
  by (simp add: disableCheck_def Let_def)

lemma disableCheck_enabled:
  assumes "refs_ok st"
  shows "list_all (enabled (disableCheck st)) (servers (disableCheck st))"
proof -
  let ?x = "(emit (LoggerInfo ''auto disabled timer invoked network server enabling'') st)
              \<lparr>enable := True\<rparr>"
  from assms have "refs_ok ?x" by (simp add: refs_ok_def emit_def)
  from enable_all_enabled [OF this]
  have e: "list_all (enabled (enable_all ?x)) (servers st)" by (simp add: emit_def)
  have h: "heap (disableCheck st) = heap (enable_all ?x)"
    and s: "servers (disableCheck st) = servers st"
    by (simp_all add: disableCheck_eq emit_def)
  from e enabled_heap [OF h] s show ?thesis by simp
qed

text \<open>
  C6 (as the claim states it, refuted). On a network whose one server is disabled,
  selection finds no enabled server three times, the timer firing and the server
  becoming unreachable again in between, with no registration. The third time the count
  is 3 and the timer is armed with 1080000 ms, not with 180000 times 3.
\<close>

theorem third_escalation_interval:
  "auto_disable_times (connect (onError ENETUNREACH (disableCheck (connect
      (onError ENETUNREACH (disableCheck (connect pool1))))))) = 3
   \<and> auto_disabled_timer (connect (onError ENETUNREACH (disableCheck (connect
      (onError ENETUNREACH (disableCheck (connect pool1))))))) =
     Some \<lparr>interval = 1080000, running = True\<rparr>
   \<and> (1080000 :: nat) \<noteq> 180000 * 3"
  using three_escalations by simp

text \<open>
  C6 (amended). Each time the server at the cursor is disabled and no server of the
  pool is enabled, selection yields no server, the escalation count goes up by one and
  the auto-disable timer is armed with the interval stored on the network multiplied by
  the new count; the result is stored as the new interval. So the interval compounds:
  with the count \<open>n\<close> since the last registration it is 180000 ms multiplied by the
  factorial of \<open>n\<close> (as long as that number is below \<open>2 ^ 53\<close>), which is 180000 times
  \<open>n\<close> for \<open>n \<le> 2\<close> only. When the timer fires, the network and then every server are
  enabled, \<open>connect()\<close> is attempted, and afterwards every server is enabled.
  Registration resets the count to zero and the interval to 180000.
\<close>

theorem auto_disable_escalation:
  assumes "at_index (servers st) (index st) = Some r" and "disabled st r"
    and "findEnabled st = None" and "refs_ok st"
    and "auto_disable_interval st * (auto_disable_times st + 1) < 2 ^ 53"
  shows "fst (next_server None st) = None
    \<and> auto_disable_times (snd (next_server None st)) = auto_disable_times st + 1
    \<and> auto_disable_interval (snd (next_server None st)) =
        (if auto_disable_interval st = 0 then 0
         else auto_disable_interval st * (auto_disable_times st + 1))
    \<and> auto_disabled_timer (snd (next_server None st)) =
        Some \<lparr>interval = auto_disable_interval (snd (next_server None st)), running = True\<rparr>
    \<and> (auto_disable_interval st = 180000 * fact (auto_disable_times st) \<longrightarrow>
        auto_disable_interval (snd (next_server None st)) =
          180000 * fact (auto_disable_times (snd (next_server None st))))
    \<and> disableCheck st =
        (emit Done (connect (enable_all
           ((emit (LoggerInfo ''auto disabled timer invoked network server enabling'') st)
              \<lparr>enable := True\<rparr>))))
        \<lparr>auto_disabled_timer := None\<rparr>
    \<and> list_all (enabled (disableCheck st)) (servers (disableCheck st))
    \<and> auto_disable_times (onRegistered st) = 0
    \<and> auto_disable_interval (onRegistered st) = 180000"
  using next_server_escalates [OF assms(1-3)] disableCheck_eq [of st]
    disableCheck_enabled [OF assms(4)]
  by (simp add: times_or_def onRegistered_eq algebra_simps)

lemma pool1_facts:
  "at_index (servers pool1) (index pool1) = Some 0" "disabled pool1 0"
  "findEnabled pool1 = None" "refs_ok pool1"
  "auto_disable_interval pool1 = 180000" "auto_disable_times pool1 = 0"
  unfolding pool1_eq
  by (simp_all add: new_IRC_def at_index_def disabled_def sv_at_def server_A_def
      findEnabled_def enabled_def refs_ok_def)

theorem auto_disable_escalation_witness:
  "at_index (servers pool1) (index pool1) = Some 0 \<and> disabled pool1 0
   \<and> findEnabled pool1 = None \<and> refs_ok pool1
   \<and> auto_disable_interval pool1 * (auto_disable_times pool1 + 1) < 2 ^ 53
   \<and> auto_disable_interval pool1 = 180000 * fact (auto_disable_times pool1)
   \<and> fst (next_server None pool1) = None
   \<and> auto_disable_times (snd (next_server None pool1)) = 1
   \<and> auto_disabled_timer (snd (next_server None pool1)) =
        Some \<lparr>interval = 180000, running = True\<rparr>
   \<and> list_all (enabled (disableCheck pool1)) (servers (disableCheck pool1))"
proof -
  have b: "auto_disable_interval pool1 * (auto_disable_times pool1 + 1) < 2 ^ 53"
    by (simp add: pool1_facts)
  note t = auto_disable_escalation [OF pool1_facts(1-4) b]
  from t have l: "list_all (enabled (disableCheck pool1)) (servers (disableCheck pool1))"
    by blast
  from t have n: "fst (next_server None pool1) = None"
    "auto_disable_times (snd (next_server None pool1)) = auto_disable_times pool1 + 1"
    "auto_disable_interval (snd (next_server None pool1)) =
        (if auto_disable_interval pool1 = 0 then 0
         else auto_disable_interval pool1 * (auto_disable_times pool1 + 1))"
    "auto_disabled_timer (snd (next_server None pool1)) =
        Some \<lparr>interval = auto_disable_interval (snd (next_server None pool1)), running = True\<rparr>"
    by blast+
  from n l show ?thesis
    by (simp add: pool1_facts)
qed


section \<open>Properties of \<open>addServer\<close>\<close>

lemma serverExists_iff:
  assumes "refs_ok st"
  shows "serverExists (Host h) (st\<lparr>heap := heap st @ [x]\<rparr>) \<longleftrightarrow> Some h \<in> set (hosts st)"
proof -
  have "\<And>r. r \<in> set (servers st) \<Longrightarrow> r < length (heap st)"
    using assms by (simp add: refs_ok_def list_all_iff)
  then show ?thesis
    by (auto simp: serverExists_def find_None_iff hosts_def sv_at_def at_index_def nth_append
        split: option.splits)
qed

lemma serverExists_hosts:
  assumes "refs_ok st"
  shows "serverExists (Host h) st \<longleftrightarrow> Some h \<in> set (hosts st)"
proof -
  have "\<And>r. r \<in> set (servers st) \<Longrightarrow> r < length (heap st)"
    using assms by (simp add: refs_ok_def list_all_iff)
  then show ?thesis
    by (auto simp: serverExists_def find_None_iff hosts_def sv_at_def at_index_def
        split: option.splits)
qed

lemma addServer_dup:
  assumes "refs_ok st" and "serverExists (Host (host serve)) st"
  shows "addServer serve cb st =
     st\<lparr>heap := heap st @ [serve],
        log := log st
          @ BotEmit (name st @ '' server exists'') [ANetwork, AServer (length (heap st))]
          # (if cb then [Callback (Some ''network server hosts must be unique'')
                          (Some (length (heap st)))] else [])\<rparr>"
  using assms serverExists_iff [OF assms(1)] serverExists_hosts [OF assms(1)]
  by (simp add: addServer_def Let_def emit_def)

lemma addServer_inv:
  assumes "refs_ok st" and "distinct (hosts st)"
  shows "refs_ok (addServer serve cb st) \<and> distinct (hosts (addServer serve cb st))"
proof (cases "serverExists (Host (host serve)) st")
  case True
  have h: "hosts (st\<lparr>heap := heap st @ [serve], log := l\<rparr>) = hosts st" for l
    using assms(1)
    by (auto simp: hosts_def refs_ok_def list_all_iff sv_at_def at_index_def nth_append)
  from addServer_dup [OF assms(1) True] assms h show ?thesis
    by (auto simp: refs_ok_def list_all_iff)
next
  case False
  with serverExists_iff [OF assms(1)] serverExists_hosts [OF assms(1)]
  have n: "\<not> serverExists (Host (host serve)) (st\<lparr>heap := heap st @ [serve]\<rparr>)"
    and nh: "Some (host serve) \<notin> set (hosts st)" by simp_all
  have h: "hosts (st\<lparr>heap := heap st @ [serve], servers := servers st @ [length (heap st)],
                    log := l\<rparr>) = hosts st @ [Some (host serve)]" for l
    using assms(1)
    by (auto simp: hosts_def refs_ok_def list_all_iff sv_at_def at_index_def nth_append)
  have h': "hosts (st\<lparr>heap := heap st @ [serve], servers := servers st @ [length (heap st)]\<rparr>) =
              hosts st @ [Some (host serve)]"
    using assms(1)
    by (auto simp: hosts_def refs_ok_def list_all_iff sv_at_def at_index_def nth_append)
  from n nh assms h h' show ?thesis
    by (auto simp: addServer_def Let_def emit_def refs_ok_def list_all_iff)
qed

lemma add_all_inv:
  "refs_ok st \<Longrightarrow> distinct (hosts st) \<Longrightarrow>
   refs_ok (add_all calls st) \<and> distinct (hosts (add_all calls st))"
proof (induction calls arbitrary: st)
  case Nil
  then show ?case by simp
next
  case (Cons c calls)
  obtain serve cb where c: "c = (serve, cb)" by (cases c)
  from addServer_inv [OF Cons.prems, of serve cb] Cons.IH [of "addServer serve cb st"] c
  show ?case by simp
qed

lemma new_IRC_inv: "refs_ok (new_IRC nm) \<and> distinct (hosts (new_IRC nm))"
  by (simp add: refs_ok_def hosts_def new_IRC_def)

text \<open>
  C9. Host uniqueness is an invariant of the server pool. From the network as its
  constructor leaves it, and from any network whose servers have distinct hosts, every
  sequence of calls of \<open>addServer\<close> leaves a servers array in which every server has a
  host and no two servers have the same host. When a server with the host of the new
  server is already present, \<open>addServer\<close> emits the notification \<open><name> server exists\<close>,
  passes the error to the callback when there is one, and leaves the array unchanged.
\<close>

theorem addServer_hosts_unique:
  assumes "refs_ok st" and "distinct (hosts st)"
  shows "distinct (hosts (add_all calls st))
    \<and> list_all (\<lambda>h. h \<noteq> None) (hosts (add_all calls st))
    \<and> distinct (hosts (add_all calls (new_IRC nm)))
    \<and> (serverExists (Host (host serve)) st \<longrightarrow>
         servers (addServer serve cb st) = servers st
         \<and> log (addServer serve cb st) =
             log st
             @ BotEmit (name st @ '' server exists'') [ANetwork, AServer (length (heap st))]
             # (if cb then [Callback (Some ''network server hosts must be unique'')
                             (Some (length (heap st)))] else []))"
proof -
  from add_all_inv [OF assms] have r: "refs_ok (add_all calls st)"
    and d: "distinct (hosts (add_all calls st))"
    by simp_all
  from r have "list_all (\<lambda>h. h \<noteq> None) (hosts (add_all calls st))"
    by (auto simp: refs_ok_def hosts_def list_all_iff sv_at_def at_index_def)
  moreover from new_IRC_inv [of nm] add_all_inv [of "new_IRC nm" calls]
  have "distinct (hosts (add_all calls (new_IRC nm)))" by simp
  ultimately show ?thesis
    using d addServer_dup [OF assms(1), of serve cb] by simp
qed

lemma pool1_inv:
  "refs_ok pool1" "distinct (hosts pool1)" "serverExists (Host (host server_A)) pool1"
  unfolding pool1_eq
  by (simp_all add: refs_ok_def hosts_def new_IRC_def serverExists_def sv_at_def at_index_def)

lemma hosts_pool1_twice:
  "hosts (add_all [(server_B, False), (server_B, True), (server_A, False)] pool1) =
     [Some ''a.example.org'', Some ''b.example.org'']"
  unfolding pool1_eq
  by (simp add: addServer_def Let_def serverExists_def sv_at_def at_index_def emit_def
      new_IRC_def hosts_def server_A_def server_B_def)

theorem addServer_hosts_unique_witness:
  "refs_ok pool1 \<and> distinct (hosts pool1)
   \<and> serverExists (Host (host server_A)) pool1
   \<and> hosts (add_all [(server_B, False), (server_B, True), (server_A, False)] pool1) =
       [Some ''a.example.org'', Some ''b.example.org'']
   \<and> distinct (hosts (add_all [(server_B, False), (server_B, True), (server_A, False)] pool1))
   \<and> servers (addServer server_A True pool1) = servers pool1
   \<and> log (addServer server_A True pool1) =
       [BotEmit ''net server exists'' [ANetwork, AServer 1],
        Callback (Some ''network server hosts must be unique'') (Some 1)]"
proof -
  note t = addServer_hosts_unique [OF pool1_inv(1,2),
      of "[(server_B, False), (server_B, True), (server_A, False)]" "''net''" server_A True]
  have f: "log pool1 = []" "name pool1 = ''net''" "length (heap pool1) = 1"
    unfolding pool1_eq by (simp_all add: new_IRC_def)
  from t pool1_inv(3) have
    "distinct (hosts (add_all [(server_B, False), (server_B, True), (server_A, False)] pool1))"
    "servers (addServer server_A True pool1) = servers pool1"
    "log (addServer server_A True pool1) =
       log pool1
       @ BotEmit (name pool1 @ '' server exists'') [ANetwork, AServer (length (heap pool1))]
       # (if True then [Callback (Some ''network server hosts must be unique'')
                          (Some (length (heap pool1)))] else [])"
    by blast+
  then show ?thesis
    using pool1_inv hosts_pool1_twice by (simp add: f)
qed


section \<open>The example session and the invariant of the framer\<close>

lemma net1_eq:
  "net1 = (new_IRC ''net'')\<lparr>enable := True, heap := [example_server], servers := [0]\<rparr>"
  by (simp add: net1_def new_IRC_def addServer_def Let_def serverExists_def)

lemma connect_net1:
  "connect net1 = net1
     \<lparr>index := 0, active_server := Some 0,
      connection := Some ((new_IrcConnection 0)\<lparr>socket := Some
        \<lparr>sock_host = ''irc.example.org'', sock_port = 6667, sock_tls = False,
         listeners = [''connect'', ''error''], ended = False, destroyed = False\<rparr>\<rparr>),
      log := [HookPre ''connect'']\<rparr>"
  by (simp add: net1_eq new_IRC_def sv_at_def at_index_def example_server_def connect_def
      next_server_def disabled_def enabled_def findEnabled_def c_connect_def
      new_IrcConnection_def emit_def)

text \<open>The example session is the state of the network \<open>net1\<close> after \<open>connect\<close> and the
  connect acknowledgment of the socket.\<close>

lemma session_reachable: "connectionSetup (connect net1) = Inr session"
  unfolding connect_net1
  by (simp add: connectionSetup_def Let_def send_login_eq send_cap_ls_def send_cap_end_def
      sv_at_def at_index_def net1_eq new_IRC_def new_IrcConnection_def example_server_def
      js_or_def truthy_def or_empty_def newnick_kwirk bot_emit_def onRegistered_eq emit_def
      send_def session_def session_conn_def open_socket_def)

lemma parseMessage_connection [simp]: "connection (parseMessage l st) = connection st"
  by (simp add: parseMessage_def emit_def split: parsed.splits)

lemma foldl_parseMessage_connection [simp]:
  "connection (foldl (\<lambda>s l. parseMessage (f l) s) st ls) = connection st"
  by (induction ls arbitrary: st) simp_all

text \<open>\<open>hold_last\<close> is never set while \<open>held_data\<close> is \<open>undefined\<close>: the state in which
  the merge of \<open>onData\<close> would throw is not reached from a new connection.\<close>

lemma frame_hold_invariant:
  assumes "\<not> (hold_last this \<and> held_data this = Undefined)"
  shows "case frame dat this of
           Inl e \<Rightarrow> False
         | Inr (Overflow c) \<Rightarrow> \<not> (hold_last c \<and> held_data c = Undefined)
         | Inr (Wait c) \<Rightarrow> \<not> (hold_last c \<and> held_data c = Undefined)
         | Inr (Lines c ls) \<Rightarrow> \<not> (hold_last c \<and> held_data c = Undefined)"
  using assms
  by (cases "held_data this")
     (auto simp: frame_def hold_rest_def split: prod.splits list.splits)

lemma onData_hold_invariant:
  assumes "connection st = Some this" and "\<not> (hold_last this \<and> held_data this = Undefined)"
    and "onData decode dat st = Inr st'" and "connection st' = Some this'"
  shows "\<not> (hold_last this' \<and> held_data this' = Undefined)"
  using assms frame_hold_invariant [OF assms(2), of dat]
  by (auto simp: onData_def emit_def split: sum.splits framing.splits option.splits)

lemma new_connection_hold: "\<not> (hold_last (new_IrcConnection sv) \<and> held_data (new_IrcConnection sv) = Undefined)"
  by (simp add: new_IrcConnection_def)

section \<open>Properties of \<open>removeServer\<close>\<close>

text \<open>The connection leaves the cursor, the active server and the flags of the network
  alone.\<close>

lemma c_disconnect_keeps [simp]:
  "index (c_disconnect m st) = index st" "enable (c_disconnect m st) = enable st"
  "n_connected (c_disconnect m st) = n_connected st"
  "active_server (c_disconnect m st) = active_server st"
  "auto_disabled_timer (c_disconnect m st) = auto_disabled_timer st"
  by (simp_all add: c_disconnect_def emit_def split: option.splits)

lemma dispose_keeps [simp]:
  "index (dispose m st) = index st" "active_server (dispose m st) = active_server st"
  by (simp_all add: dispose_def Let_def split: option.splits)

lemma c_connect_keeps [simp]:
  "index (c_connect st) = index st" "active_server (c_connect st) = active_server st"
  by (simp_all add: c_connect_def emit_def split: option.splits)



lemma next_server_keeps [simp]:
  "n_connected (snd (next_server i st)) = n_connected st"
  "connection (snd (next_server i st)) = connection st"
  by (simp_all add: next_server_def Let_def emit_def split: option.splits)

lemma dispose_n_connected [simp]: "n_connected (dispose m st) = n_connected st"
  by (simp add: dispose_def Let_def split: option.splits)

lemma c_connect_n_connected [simp]: "n_connected (c_connect st) = n_connected st"
  by (simp add: c_connect_def emit_def split: option.splits)

lemma connect_n_connected [simp]: "n_connected (connect st) = n_connected st"
proof -
  let ?st1 = "if connection st \<noteq> None then dispose None st else st"
  obtain sv st2 where n: "next_server None ?st1 = (sv, st2)"
    by (cases "next_server None ?st1")
  from n have "st2 = snd (next_server None ?st1)" by simp
  then have "n_connected st2 = n_connected ?st1" by (simp only: next_server_keeps)
  then have "n_connected st2 = n_connected st" by (cases "connection st") simp_all
  with n show ?thesis
    by (simp add: connect_def Let_def emit_def split: option.splits)
qed














end
